theory Spec2Isabelle
  imports Main "HOL-Library.Sublist" "HOL-Library.Monad_Syntax"
begin

section \<open>JavaScript values\<close>

text \<open>
  The values the agents read out of \<open>JSON.parse\<close>, plus \<open>undefined\<close> (a missing
  property). A number is carried as the text that JavaScript's \<open>ToString\<close> prints for
  it: the code only tests numbers for truthiness and interpolates them into strings.
  A \<open>string\<close> is the sequence of code units of the JavaScript string, one \<open>char\<close>
  each (code units below 256).
\<close>

datatype jsval =
    JUndefined
  | JNull
  | JBool bool
  | JNum string
  | JStr string
  | JArr "jsval list"
  | JObj "(string \<times> jsval) list"

definition nullish :: "jsval \<Rightarrow> bool" where
  "nullish v = (v = JUndefined \<or> v = JNull)"

text \<open>
  \<open>v.k\<close> for one of the fixed keys the agents read (\<open>suites\<close>, \<open>tests\<close>, \<open>status\<close>,
  \<open>title\<close>, \<open>file\<close>, \<open>error\<close>, \<open>message\<close>, \<open>confidence\<close>, \<open>originalSelector\<close>,
  \<open>suggestedSelector\<close>, \<open>explanation\<close>): none of them is a property of a prototype.
  Reading a property of \<open>null\<close> or \<open>undefined\<close> throws a TypeError (\<open>None\<close>); an
  object parsed from JSON keeps the last binding of a repeated key; every other value
  has no such property.
\<close>

fun member :: "jsval \<Rightarrow> string \<Rightarrow> jsval option" where
  "member JUndefined k = None"
| "member JNull k = None"
| "member (JObj kvs) k = Some (case map_of (rev kvs) k of None \<Rightarrow> JUndefined | Some v \<Rightarrow> v)"
| "member v k = Some JUndefined"

text \<open>Truthiness, as \<open>||\<close>, \<open>!\<close> and \<open>if\<close> test it.\<close>

fun truthy :: "jsval \<Rightarrow> bool" where
  "truthy JUndefined = False"
| "truthy JNull = False"
| "truthy (JBool b) = b"
| "truthy (JNum t) = (t \<noteq> ''0'' \<and> t \<noteq> ''NaN'')"
| "truthy (JStr s) = (s \<noteq> [])"
| "truthy (JArr xs) = True"
| "truthy (JObj kvs) = True"

section \<open>Test Runner Adapter: \<open>runPlaywrightTests\<close>\<close>

record failedTest =
  ft_name :: jsval
  ft_file :: jsval
  ft_error :: jsval

text \<open>
  The three counters are shared by the result of one run and by the \<open>testResults\<close>
  that \<open>triggerAgent3\<close> aggregates.
\<close>

record counts =
  totalTests :: nat
  passed :: nat
  failed :: nat

record testRunResult = counts +
  failedTests :: "failedTest list"

definition emptyRun :: testRunResult where
  "emptyRun = \<lparr>totalTests = 0, passed = 0, failed = 0, failedTests = []\<rparr>"

text \<open>
  The body of the inner \<open>forEach\<close> callback. The result is the mutated \<open>testResults\<close>
  together with a flag that says whether the callback threw: the increments made before
  a throw stay in \<open>testResults\<close>, which the surrounding \<open>catch\<close> does not reset.
  \<open>test.status\<close> is read after \<open>totalTests++\<close>.
\<close>

definition error_message :: "jsval \<Rightarrow> jsval option" where
  "error_message t =
     (case member t ''error'' of
        None \<Rightarrow> None
      | Some e \<Rightarrow>
          (let m = (if nullish e then Some JUndefined else member e ''message'')
           in case m of
                None \<Rightarrow> None
              | Some v \<Rightarrow> Some (if truthy v then v else JStr ''Unknown error'')))"

definition count_test :: "jsval \<Rightarrow> testRunResult \<Rightarrow> bool \<times> testRunResult" where
  "count_test t r =
     (let r1 = r\<lparr>totalTests := totalTests r + 1\<rparr>
      in case member t ''status'' of
           None \<Rightarrow> (True, r1)
         | Some st \<Rightarrow>
             if st = JStr ''passed'' then (False, r1\<lparr>passed := passed r1 + 1\<rparr>)
             else
               (let r2 = r1\<lparr>failed := failed r1 + 1\<rparr>
                in case member t ''title'' of
                     None \<Rightarrow> (True, r2)
                   | Some ti \<Rightarrow>
                       (case member t ''file'' of
                          None \<Rightarrow> (True, r2)
                        | Some fi \<Rightarrow>
                            (case error_message t of
                               None \<Rightarrow> (True, r2)
                             | Some er \<Rightarrow>
                                 (False, r2\<lparr>failedTests :=
                                    failedTests r2 @ [\<lparr>ft_name = ti, ft_file = fi, ft_error = er\<rparr>]\<rparr>)))))"

text \<open>\<open>xs.forEach(f)\<close> on an array: stops at the first callback that throws.\<close>

fun forEach :: "('a \<Rightarrow> 's \<Rightarrow> bool \<times> 's) \<Rightarrow> 'a list \<Rightarrow> 's \<Rightarrow> bool \<times> 's" where
  "forEach f [] s = (False, s)"
| "forEach f (x # xs) s =
     (case f x s of (True, s') \<Rightarrow> (True, s') | (False, s') \<Rightarrow> forEach f xs s')"

text \<open>
  \<open>v?.forEach(f)\<close>: nothing happens on \<open>null\<close> and \<open>undefined\<close>; an array is walked;
  any other value has no callable \<open>forEach\<close> and the call throws.
\<close>

fun optForEach :: "(jsval \<Rightarrow> 's \<Rightarrow> bool \<times> 's) \<Rightarrow> jsval \<Rightarrow> 's \<Rightarrow> bool \<times> 's" where
  "optForEach f JUndefined s = (False, s)"
| "optForEach f JNull s = (False, s)"
| "optForEach f (JArr xs) s = forEach f xs s"
| "optForEach f v s = (True, s)"

definition count_suite :: "jsval \<Rightarrow> testRunResult \<Rightarrow> bool \<times> testRunResult" where
  "count_suite suite r =
     (case member suite ''tests'' of
        None \<Rightarrow> (True, r)
      | Some ts \<Rightarrow> optForEach count_test ts r)"

definition count_report :: "jsval \<Rightarrow> testRunResult \<Rightarrow> bool \<times> testRunResult" where
  "count_report results r =
     (case member results ''suites'' of
        None \<Rightarrow> (True, r)
      | Some ss \<Rightarrow> optForEach count_suite ss r)"

text \<open>
  The second \<open>try\<close> block of \<open>runPlaywrightTests\<close>. The argument is what
  \<open>JSON.parse(await fs.readFile(resultsPath))\<close> gives, \<open>None\<close> when the file is missing
  or \<open>JSON.parse\<close> throws. The \<open>catch\<close> only logs, and the function returns
  \<open>testResults\<close> as it stands. The \<open>screenshots\<close> field, which nothing reads, is left out.
\<close>

definition parseResults :: "jsval option \<Rightarrow> testRunResult" where
  "parseResults report =
     (case report of
        None \<Rightarrow> emptyRun
      | Some results \<Rightarrow> snd (count_report results emptyRun))"

text \<open>The entries \<open>suites[i].tests[j]\<close> of a report that the walk can reach.\<close>

definition suite_tests :: "jsval \<Rightarrow> jsval list" where
  "suite_tests suite = (case member suite ''tests'' of Some (JArr ts) \<Rightarrow> ts | _ \<Rightarrow> [])"

definition report_tests :: "jsval \<Rightarrow> jsval list" where
  "report_tests results =
     (case member results ''suites'' of
        Some (JArr ss) \<Rightarrow> concat (map suite_tests ss)
      | _ \<Rightarrow> [])"

definition no_null_test :: "jsval option \<Rightarrow> bool" where
  "no_null_test report =
     (case report of None \<Rightarrow> True | Some results \<Rightarrow> list_all (\<lambda>t. \<not> nullish t) (report_tests results))"

section \<open>Regular expressions and string replacement\<close>

text \<open>
  A pattern is given by what it matches at the start of a text: the captures and the
  number of characters matched, or \<open>None\<close>. Every pattern of the agents is
  deterministic under backtracking: each greedy repetition is followed by a character
  outside its class.
\<close>

type_synonym matcher = "string \<Rightarrow> (string list \<times> nat) option"

definition is_space :: "char \<Rightarrow> bool" where
  \<comment> \<open>\<open>\s\<close>, on code units below 256\<close>
  "is_space c = (c \<in> set [CHR 0x09, CHR 0x0A, CHR 0x0B, CHR 0x0C, CHR 0x0D, CHR 0x20, CHR 0xA0])"

definition is_word :: "char \<Rightarrow> bool" where
  \<comment> \<open>\<open>\w\<close>\<close>
  "is_word c =
     (let n = (of_char c :: nat)
      in (48 \<le> n \<and> n \<le> 57) \<or> (65 \<le> n \<and> n \<le> 90) \<or> n = 95 \<or> (97 \<le> n \<and> n \<le> 122))"

definition digit_val :: "char \<Rightarrow> nat option" where
  "digit_val c =
     (let n = (of_char c :: nat) in if 48 \<le> n \<and> n \<le> 57 then Some (n - 48) else None)"

definition is_quote :: "char \<Rightarrow> bool" where
  \<comment> \<open>the class \<open>['"]\<close>\<close>
  "is_quote c = (c = CHR 0x27 \<or> c = CHR 0x22)"

definition lit :: "string \<Rightarrow> string \<Rightarrow> string option" where
  \<comment> \<open>a literal: the rest of the text after it\<close>
  "lit p s = (if prefix p s then Some (drop (length p) s) else None)"

definition many1 :: "(char \<Rightarrow> bool) \<Rightarrow> string \<Rightarrow> (string \<times> string) option" where
  \<comment> \<open>a greedy \<open>[class]+\<close>: what it takes and the rest\<close>
  "many1 p s = (if takeWhile p s = [] then None else Some (takeWhile p s, dropWhile p s))"

definition one :: "(char \<Rightarrow> bool) \<Rightarrow> string \<Rightarrow> (char \<times> string) option" where
  "one p s = (case s of [] \<Rightarrow> None | c # r \<Rightarrow> if p c then Some (c, r) else None)"

text \<open>
  \<open>GetSubstitution\<close>: the expansion of a replacement template for one match, with the
  captures, the matched text, the text before the match and the text after it.
  \<open>$$\<close> is a dollar sign, \<open>$&\<close> the match, \<open>$`\<close> the text before, \<open>$'\<close> the text
  after, \<open>$n\<close> and \<open>$nn\<close> a capture when the pattern has that many groups (a two-digit
  reference beyond the number of groups is read as a one-digit reference followed by a
  digit); every other dollar sign stands for itself. No pattern here has named groups.
\<close>

definition capture_ref :: "string list \<Rightarrow> nat \<Rightarrow> string option" where
  "capture_ref caps i = (if 1 \<le> i \<and> i \<le> length caps then Some (caps ! (i - 1)) else None)"

fun expand :: "string list \<Rightarrow> string \<Rightarrow> string \<Rightarrow> string \<Rightarrow> string \<Rightarrow> string" where
  "expand caps m b a [] = []"
| "expand caps m b a [c] = [c]"
| "expand caps m b a (c # d # t) =
     (if c \<noteq> CHR ''$'' then c # expand caps m b a (d # t)
      else if d = CHR ''$'' then CHR ''$'' # expand caps m b a t
      else if d = CHR ''&'' then m @ expand caps m b a t
      else if d = CHR 0x60 then b @ expand caps m b a t
      else if d = CHR 0x27 then a @ expand caps m b a t
      else
        (case digit_val d of
           None \<Rightarrow> CHR ''$'' # expand caps m b a (d # t)
         | Some n1 \<Rightarrow>
             (let one_digit =
                (case capture_ref caps n1 of
                   Some cap \<Rightarrow> cap @ expand caps m b a t
                 | None \<Rightarrow> CHR ''$'' # d # expand caps m b a t)
              in case t of
                   [] \<Rightarrow> one_digit
                 | e # t' \<Rightarrow>
                     (case digit_val e of
                        None \<Rightarrow> one_digit
                      | Some n2 \<Rightarrow>
                          if 10 * n1 + n2 > length caps then one_digit
                          else
                            (case capture_ref caps (10 * n1 + n2) of
                               Some cap \<Rightarrow> cap @ expand caps m b a t'
                             | None \<Rightarrow> CHR ''$'' # d # e # expand caps m b a t')))))"

text \<open>
  \<open>text.replace(pattern, template)\<close> for a pattern with the \<open>g\<close> flag: the search
  starts at index 0, every match found from left to right is replaced, and the search
  goes on after the match (one character further after an empty match). The third
  argument is the text before the current position.
\<close>

function replace_global :: "matcher \<Rightarrow> string \<Rightarrow> string \<Rightarrow> string \<Rightarrow> string" where
  "replace_global m tmpl left [] =
     (case m [] of None \<Rightarrow> [] | Some (caps, n) \<Rightarrow> expand caps [] left [] tmpl)"
| "replace_global m tmpl left (c # cs) =
     (case m (c # cs) of
        None \<Rightarrow> c # replace_global m tmpl (left @ [c]) cs
      | Some (caps, n) \<Rightarrow>
          if n = 0 then
            expand caps [] left (c # cs) tmpl @ c # replace_global m tmpl (left @ [c]) cs
          else
            expand caps (take n (c # cs)) left (drop n (c # cs)) tmpl
              @ replace_global m tmpl (left @ take n (c # cs)) (drop n (c # cs)))"
  by pat_completeness auto
termination
  by (relation "measure (\<lambda>(m, tmpl, left, s). length s)") auto

text \<open>\<open>pattern.test(text)\<close> on a pattern just built (\<open>lastIndex\<close> is 0).\<close>

fun regex_test :: "matcher \<Rightarrow> string \<Rightarrow> bool" where
  "regex_test m [] = (m [] \<noteq> None)"
| "regex_test m (c # cs) = (m (c # cs) \<noteq> None \<or> regex_test m cs)"

text \<open>\<open>text.match(pattern)\<close> without the \<open>g\<close> flag: the captures of the first match.\<close>

fun regex_match :: "matcher \<Rightarrow> string \<Rightarrow> string list option" where
  "regex_match m [] = map_option fst (m [])"
| "regex_match m (c # cs) =
     (case m (c # cs) of Some (caps, n) \<Rightarrow> Some caps | None \<Rightarrow> regex_match m cs)"

text \<open>\<open>text.trim()\<close>.\<close>

definition trim :: "string \<Rightarrow> string" where
  "trim s = rev (dropWhile is_space (rev (dropWhile is_space s)))"

section \<open>The patterns of Agent 3\<close>

text \<open>
  \<open>/locator\('([^']+)'\)|selector\('([^']+)'\)|'([^']+)'/\<close>, applied to the error
  message. A group that did not take part in the match is \<open>undefined\<close>; it is the
  empty text here, which \<open>||\<close> treats alike.
\<close>

definition quotedArg :: "string \<Rightarrow> string \<Rightarrow> string \<Rightarrow> (string \<times> nat) option" where
  \<comment> \<open>\<open>opening([^']+)closing\<close>: the group and the length of the match\<close>
  "quotedArg opening closing s =
     do {
       r \<leftarrow> lit opening s;
       (body, r') \<leftarrow> many1 (\<lambda>c. c \<noteq> CHR 0x27) r;
       r'' \<leftarrow> lit closing r';
       Some (body, length s - length r'')
     }"

definition locatorPattern :: matcher where
  "locatorPattern s =
     (case quotedArg (''locator('' @ [CHR 0x27]) (CHR 0x27 # '')'') s of
        Some (g, n) \<Rightarrow> Some ([g, [], []], n)
      | None \<Rightarrow>
          (case quotedArg (''selector('' @ [CHR 0x27]) (CHR 0x27 # '')'') s of
             Some (g, n) \<Rightarrow> Some ([[], g, []], n)
           | None \<Rightarrow>
               (case quotedArg [CHR 0x27] [CHR 0x27] s of
                  Some (g, n) \<Rightarrow> Some ([[], [], g], n)
                | None \<Rightarrow> None)))"

definition failedSelectorOf :: "string \<Rightarrow> string option" where
  \<comment> \<open>\<open>elementMatch?.[1] || elementMatch?.[2] || elementMatch?.[3]\<close>, \<open>None\<close> when falsy\<close>
  "failedSelectorOf err =
     (case regex_match locatorPattern err of
        None \<Rightarrow> None
      | Some caps \<Rightarrow>
          (case filter (\<lambda>g. g \<noteq> []) caps of [] \<Rightarrow> None | g # _ \<Rightarrow> Some g))"

text \<open>\<open>/page\.goto\(['"]([^'"]+)['"]\)/\<close>, applied to the test file.\<close>

definition gotoPattern :: matcher where
  "gotoPattern s =
     do {
       r \<leftarrow> lit ''page.goto('' s;
       (q1, r1) \<leftarrow> one is_quote r;
       (url, r2) \<leftarrow> many1 (\<lambda>c. \<not> is_quote c) r1;
       (q2, r3) \<leftarrow> one is_quote r2;
       r4 \<leftarrow> lit '')'' r3;
       Some ([url], length s - length r4)
     }"

definition pageUrlOf :: "string \<Rightarrow> string option" where
  \<comment> \<open>\<open>urlMatch?.[1]\<close>, \<open>None\<close> when falsy\<close>
  "pageUrlOf content =
     (case regex_match gotoPattern content of Some [url] \<Rightarrow> Some url | _ \<Rightarrow> None)"

text \<open>\<open>/import\s+{\s*(\w+)\s*}\s+from\s+['"]([^'"]+)['"]/\<close>, applied to the test file.\<close>

definition importPattern :: matcher where
  "importPattern s =
     do {
       r1 \<leftarrow> lit ''import'' s;
       (sp1, r2) \<leftarrow> many1 is_space r1;
       r3 \<leftarrow> lit ''{'' r2;
       (cls, r4) \<leftarrow> many1 is_word (dropWhile is_space r3);
       r5 \<leftarrow> lit ''}'' (dropWhile is_space r4);
       (sp2, r6) \<leftarrow> many1 is_space r5;
       r7 \<leftarrow> lit ''from'' r6;
       (sp3, r8) \<leftarrow> many1 is_space r7;
       (q1, r9) \<leftarrow> one is_quote r8;
       (modpath, r10) \<leftarrow> many1 (\<lambda>c. \<not> is_quote c) r9;
       (q2, r11) \<leftarrow> one is_quote r10;
       Some ([cls, modpath], length s - length r11)
     }"

text \<open>
  \<open>escapeRegex\<close>: \<open>str.replace(/[.*+?^${}()|[\]\\]/g, '\\$&')\<close>, a backslash before
  every character of the class.
\<close>

definition regex_special :: "char \<Rightarrow> bool" where
  "regex_special c =
     (c \<in> set [CHR ''.'', CHR ''*'', CHR ''+'', CHR ''?'', CHR 0x5E, CHR ''$'', CHR ''{'', CHR ''}'',
               CHR ''('', CHR '')'', CHR ''|'', CHR ''['', CHR '']'', CHR 0x5C])"

definition specialPattern :: matcher where
  "specialPattern s = (case s of [] \<Rightarrow> None | c # r \<Rightarrow> if regex_special c then Some ([], 1) else None)"

definition escapeRegex :: "string \<Rightarrow> string" where
  "escapeRegex str = replace_global specialPattern [CHR 0x5C, CHR ''$'', CHR ''&''] [] str"

text \<open>
  The text that a pattern source matches when the source is made of plain characters
  and backslash-escaped syntax characters only; \<open>None\<close> for any other source.
\<close>

fun regex_literal :: "string \<Rightarrow> string option" where
  "regex_literal [] = Some []"
| "regex_literal [c] = (if regex_special c then None else Some [c])"
| "regex_literal (c # d # t) =
     (if c = CHR 0x5C then (if regex_special d then map_option ((#) d) (regex_literal t) else None)
      else if regex_special c then None
      else map_option ((#) c) (regex_literal (d # t)))"

text \<open>
  The two \<open>selectorPatterns\<close> of \<open>updatePageObjectSelector\<close>, for the source
  \<open>src\<close> of the escaped selector:
  \<open>(['"`\(])src(['"`\)])\<close> with two groups, and \<open>: ['"`]src['"`]\<close> with none.
\<close>

definition open_delim :: "char \<Rightarrow> bool" where
  "open_delim c = (c \<in> set [CHR 0x27, CHR 0x22, CHR 0x60, CHR ''(''])"

definition close_delim :: "char \<Rightarrow> bool" where
  "close_delim c = (c \<in> set [CHR 0x27, CHR 0x22, CHR 0x60, CHR '')''])"

definition quote_delim :: "char \<Rightarrow> bool" where
  "quote_delim c = (c \<in> set [CHR 0x27, CHR 0x22, CHR 0x60])"

definition selectorPattern1 :: "string \<Rightarrow> matcher" where
  "selectorPattern1 src s =
     do {
       sel \<leftarrow> regex_literal src;
       (d1, r1) \<leftarrow> one open_delim s;
       r2 \<leftarrow> lit sel r1;
       (d2, r3) \<leftarrow> one close_delim r2;
       Some ([[d1], [d2]], length s - length r3)
     }"

definition selectorPattern2 :: "string \<Rightarrow> matcher" where
  "selectorPattern2 src s =
     do {
       sel \<leftarrow> regex_literal src;
       r0 \<leftarrow> lit '': '' s;
       (d1, r1) \<leftarrow> one quote_delim r0;
       r2 \<leftarrow> lit sel r1;
       (d2, r3) \<leftarrow> one quote_delim r2;
       Some ([], length s - length r3)
     }"

text \<open>
  The fences that \<open>correctFailedSelectors\<close> strips from the advisory text:
  \<open>.replace(/```json\n?/g, '').replace(/```\n?/g, '').trim()\<close>.
\<close>

definition fencePattern :: "string \<Rightarrow> matcher" where
  "fencePattern fence s =
     (case lit fence s of
        None \<Rightarrow> None
      | Some r \<Rightarrow> Some ([], length fence + (case r of c # r' \<Rightarrow> if c = CHR 0x0A then 1 else 0 | [] \<Rightarrow> 0)))"

definition stripFences :: "string \<Rightarrow> string" where
  "stripFences txt =
     trim (replace_global (fencePattern [CHR 0x60, CHR 0x60, CHR 0x60]) [] []
            (replace_global (fencePattern ([CHR 0x60, CHR 0x60, CHR 0x60] @ ''json'')) [] [] txt))"

section \<open>The world outside the agents\<close>

text \<open>
  An entry of \<open>corrections\<close> in \<open>correctFailedSelectors\<close>, and the \<open>testResults\<close>
  that \<open>triggerAgent3\<close> aggregates, reports and returns.
\<close>

record correction =
  corr_test :: jsval
  corr_file :: string
  corr_originalSelector :: jsval
  corr_newSelector :: jsval

record testResults = counts +
  correctedSelectors :: "correction list"
  startTime :: int
  endTime :: "int option"
  correctionPrUrl :: jsval

text \<open>
  What the agents do to the outside is recorded as a log of events, in order:
  the start of agent \<open>n\<close>, the clone of the target repository, a run of the test
  runner, the fetch of a page, a request to the advisor (failed selector and page
  prefix), a file written (path and content), the commit, push and pull request of the
  corrections, the results reported to the issue tracker, a failure comment, and the
  lines the orchestrator logs. The files are those of the working checkout, by path.
\<close>

datatype event =
    AgentStarted nat
  | Clone
  | RunTests
  | FetchPage string
  | AskAdvisor string string
  | WriteFile string string
  | Commit
  | Push
  | CreatePR
  | ReportResults testResults
  | ReportFailure
  | StageErrorLogged nat
  | FatalLogged
  | WorkflowCompleted

record world =
  files :: "string \<rightharpoonup> string"
  log :: "event list"

text \<open>
  The collaborators, as functions of what has happened so far (the log), so that the
  same request may be answered differently at different times:
  \<^item> \<open>json_parse\<close>: \<open>JSON.parse\<close>, \<open>None\<close> when it throws;
  \<^item> \<open>path_join\<close>, \<open>path_dirname\<close>: Node's \<open>path.join\<close> and \<open>path.dirname\<close>;
  \<^item> \<open>agent1_ok\<close>: whether every step of \<open>triggerAgent1\<close> before its call of
    \<open>triggerAgent2\<close> returns (the generation of the test cases, their file, the comments);
  \<^item> \<open>agent2_ok\<close>: whether the steps of \<open>triggerAgent2\<close> return (script generation,
    clone, commit, push, pull request, comment);
  \<^item> \<open>clone\<close>: the files of the checkout after \<open>prepareTestRepo\<close>, and whether it
    returned rather than threw;
  \<^item> \<open>exec_tests\<close>: the text of \<open>test-results/results.json\<close> after the test runner has
    run on the files, \<open>None\<close> when it cannot be read;
  \<^item> \<open>http_get\<close>: \<open>axios.get(url).then(r => r.data).catch(() => null)\<close>;
  \<^item> \<open>ask_ai\<close>: \<open>response.content[0].text\<close> for the correction prompt, which is fixed
    but for the failed selector and the first 5000 characters of the page; \<open>None\<close> when
    the call throws or the response has no text;
  \<^item> \<open>can_write\<close>: whether \<open>fs.writeFile\<close> to the path succeeds;
  \<^item> \<open>commit_ok\<close>, \<open>push_ok\<close>: whether \<open>commitCorrections\<close> and \<open>pushCorrections\<close>
    return rather than throw;
  \<^item> \<open>create_pr\<close>: what \<open>createCorrectionPR\<close> returns (\<open>null\<close> on failure);
  \<^item> \<open>jira_ok\<close>: whether \<open>updateJiraWithResults\<close> returns rather than throws;
  \<^item> \<open>clock\<close>: \<open>new Date()\<close>.
\<close>

record env =
  json_parse :: "string \<Rightarrow> jsval option"
  path_join :: "string \<Rightarrow> string \<Rightarrow> string"
  path_dirname :: "string \<Rightarrow> string"
  agent1_ok :: "event list \<Rightarrow> bool"
  agent2_ok :: "event list \<Rightarrow> bool"
  clone :: "event list \<Rightarrow> (string \<rightharpoonup> string) \<times> bool"
  exec_tests :: "event list \<Rightarrow> (string \<rightharpoonup> string) \<Rightarrow> string option"
  http_get :: "event list \<Rightarrow> string \<Rightarrow> jsval"
  ask_ai :: "event list \<Rightarrow> string \<Rightarrow> string \<Rightarrow> string option"
  can_write :: "event list \<Rightarrow> string \<Rightarrow> bool"
  commit_ok :: "event list \<Rightarrow> bool"
  push_ok :: "event list \<Rightarrow> bool"
  create_pr :: "event list \<Rightarrow> jsval"
  jira_ok :: "event list \<Rightarrow> bool"
  clock :: "event list \<Rightarrow> int"

definition emit :: "event \<Rightarrow> world \<Rightarrow> world" where
  "emit e w = w\<lparr>log := log w @ [e]\<rparr>"

text \<open>
  \<open>runPlaywrightTests\<close>: the runner's exit code is ignored; the report is read and
  parsed, and walked by \<open>parseResults\<close>. It never throws.
\<close>

definition runPlaywrightTests :: "env \<Rightarrow> world \<Rightarrow> world \<times> testRunResult" where
  "runPlaywrightTests env w =
     (emit RunTests w,
      parseResults (case exec_tests env (log w) (files w) of
                      None \<Rightarrow> None
                    | Some txt \<Rightarrow> json_parse env txt))"

section \<open>Artifact Patcher: \<open>updatePageObjectSelector\<close>\<close>

text \<open>
  \<open>ToString\<close>, as a template literal applies it. An array is joined with commas, its
  \<open>null\<close> and \<open>undefined\<close> entries printing as nothing. An object parsed from JSON
  prints as \<open>[object Object]\<close>, unless it has a key \<open>toString\<close>: that value is not
  callable, neither is any \<open>valueOf\<close> it may have, \<open>Object.prototype.valueOf\<close> returns
  the object itself, and the conversion throws a TypeError (\<open>None\<close>).
\<close>

fun join :: "string \<Rightarrow> string list \<Rightarrow> string" where
  "join sep [] = []"
| "join sep [x] = x"
| "join sep (x # y # ys) = x @ sep @ join sep (y # ys)"

fun to_string :: "jsval \<Rightarrow> string option" where
  "to_string JUndefined = Some ''undefined''"
| "to_string JNull = Some ''null''"
| "to_string (JBool b) = Some (if b then ''true'' else ''false'')"
| "to_string (JNum t) = Some t"
| "to_string (JStr s) = Some s"
| "to_string (JArr xs) =
     map_option (join '','')
       (those (map (\<lambda>x. if x = JUndefined \<or> x = JNull then Some [] else to_string x) xs))"
| "to_string (JObj kvs) =
     (if ''toString'' \<in> fst ` set kvs then None else Some ''[object Object]'')"

datatype patch = Threw | Unchanged | Patched string

text \<open>
  The loop over \<open>selectorPatterns\<close>: the first pattern that \<open>test\<close> finds in the
  content replaces all its matches and ends the loop. The template is \<open>None\<close> when
  building it throws, which happens only once a pattern has matched.
\<close>

fun applyPatterns :: "matcher list \<Rightarrow> string option \<Rightarrow> string \<Rightarrow> patch" where
  "applyPatterns [] tmpl content = Unchanged"
| "applyPatterns (p # ps) tmpl content =
     (if regex_test p content then
        (case tmpl of None \<Rightarrow> Threw | Some t \<Rightarrow> Patched (replace_global p t [] content))
      else applyPatterns ps tmpl content)"

definition selectorPatterns :: "string \<Rightarrow> matcher list" where
  "selectorPatterns originalSelector =
     [selectorPattern1 (escapeRegex originalSelector), selectorPattern2 (escapeRegex originalSelector)]"

definition replacementTemplate :: "jsval \<Rightarrow> string option" where
  \<comment> \<open>the template literal \<open>`$1${suggestion.suggestedSelector}$2`\<close>\<close>
  "replacementTemplate suggestion =
     (case member suggestion ''suggestedSelector'' of
        None \<Rightarrow> None
      | Some v \<Rightarrow> map_option (\<lambda>t. ''$1'' @ t @ ''$2'') (to_string v))"

text \<open>
  What \<open>updatePageObjectSelector\<close> does to the text of the page object:
  \<open>escapeRegex\<close> throws when \<open>suggestion.originalSelector\<close> is not a string.
\<close>

definition patchContent :: "jsval \<Rightarrow> string \<Rightarrow> patch" where
  "patchContent suggestion pageContent =
     (case member suggestion ''originalSelector'' of
        Some (JStr originalSelector) \<Rightarrow>
          applyPatterns (selectorPatterns originalSelector) (replacementTemplate suggestion) pageContent
      | _ \<Rightarrow> Threw)"

text \<open>
  The path of the page object: \<open>None\<close> when the test file cannot be read (the function
  catches the error and returns false) or has no import of the expected form (it
  returns false).
\<close>

definition pageObjectPath :: "env \<Rightarrow> string \<Rightarrow> string \<Rightarrow> world \<Rightarrow> string option" where
  "pageObjectPath env repoDir testFile w =
     (case files w (path_join env repoDir testFile) of
        None \<Rightarrow> None
      | Some testContent \<Rightarrow>
          (case regex_match importPattern testContent of
             Some [pageClassName, modpath] \<Rightarrow>
               Some (path_join env repoDir
                       (path_join env (path_dirname env testFile) (modpath @ ''.ts'')))
           | _ \<Rightarrow> None))"

definition updatePageObjectSelector ::
    "env \<Rightarrow> string \<Rightarrow> string \<Rightarrow> jsval \<Rightarrow> world \<Rightarrow> world \<times> bool" where
  "updatePageObjectSelector env repoDir testFile suggestion w =
     (case pageObjectPath env repoDir testFile w of
        None \<Rightarrow> (w, False)
      | Some absolutePagePath \<Rightarrow>
          (case files w absolutePagePath of
             None \<Rightarrow> (w, False)
           | Some pageContent \<Rightarrow>
               (case patchContent suggestion pageContent of
                  Threw \<Rightarrow> (w, False)
                | Unchanged \<Rightarrow> (w, False)
                | Patched newContent \<Rightarrow>
                    if can_write env (log w) absolutePagePath then
                      (emit (WriteFile absolutePagePath newContent)
                         (w\<lparr>files := (files w)(absolutePagePath \<mapsto> newContent)\<rparr>), True)
                    else (w, False))))"

section \<open>Correction loop: \<open>correctFailedSelectors\<close>\<close>

text \<open>
  How one pass of the \<open>for\<close> loop ends: with one of the three \<open>continue\<close>s, in the
  \<open>catch\<close> of the loop body, in the low-confidence branch, with a patch that reported
  no change, or with a correction pushed onto \<open>corrections\<close>.
\<close>

datatype outcome =
    NoLocator
  | NoUrl
  | NoHtml
  | Caught
  | LowConfidence
  | NoChange
  | Applied correction

text \<open>
  The first half of the loop body, up to \<open>JSON.parse\<close>: either the pass ends
  there, or it has a test file and a parsed suggestion. \<open>failedTest.error.match\<close>
  throws unless the error is a string, and \<open>path.join\<close> throws unless the file is
  one; a page that is not a string is either falsy (skipped) or has no \<open>substring\<close>
  (a throw).
\<close>

definition askAdvisor ::
    "env \<Rightarrow> string \<Rightarrow> string \<Rightarrow> string \<Rightarrow> world \<Rightarrow> world \<times> (outcome + string \<times> jsval)" where
  "askAdvisor env testFile failedSelector pageHtml w =
     (let w1 = emit (AskAdvisor failedSelector (take 5000 pageHtml)) w
      in case ask_ai env (log w) failedSelector (take 5000 pageHtml) of
           None \<Rightarrow> (w1, Inl Caught)
         | Some jsonResponse \<Rightarrow>
             (case json_parse env (stripFences jsonResponse) of
                None \<Rightarrow> (w1, Inl Caught)
              | Some suggestion \<Rightarrow> (w1, Inr (testFile, suggestion))))"

definition obtainSuggestion ::
    "env \<Rightarrow> string \<Rightarrow> failedTest \<Rightarrow> world \<Rightarrow> world \<times> (outcome + string \<times> jsval)" where
  "obtainSuggestion env repoDir failedTest w =
     (case to_string (ft_name failedTest) of
        None \<Rightarrow> (w, Inl Caught)
      | Some shown \<Rightarrow>
          (case ft_error failedTest of
             JStr err \<Rightarrow>
               (case failedSelectorOf err of
                  None \<Rightarrow> (w, Inl NoLocator)
                | Some failedSelector \<Rightarrow>
                    (case ft_file failedTest of
                       JStr testFile \<Rightarrow>
                         (case files w (path_join env repoDir testFile) of
                            None \<Rightarrow> (w, Inl Caught)
                          | Some pageContent \<Rightarrow>
                              (case pageUrlOf pageContent of
                                 None \<Rightarrow> (w, Inl NoUrl)
                               | Some pageUrl \<Rightarrow>
                                   (let w1 = emit (FetchPage pageUrl) w;
                                        pageHtml = http_get env (log w) pageUrl
                                    in if \<not> truthy pageHtml then (w1, Inl NoHtml)
                                       else
                                         (case pageHtml of
                                            JStr html \<Rightarrow> askAdvisor env testFile failedSelector html w1
                                          | _ \<Rightarrow> (w1, Inl Caught)))))
                     | _ \<Rightarrow> (w, Inl Caught)))
           | _ \<Rightarrow> (w, Inl Caught)))"

text \<open>
  The second half: the confidence gate, the patch, the record. The two \<open>console.log\<close>
  lines of the confident branch interpolate \<open>suggestedSelector\<close> and \<open>explanation\<close>,
  and throw when \<open>ToString\<close> does.
\<close>

definition applySuggestion ::
    "env \<Rightarrow> string \<Rightarrow> failedTest \<Rightarrow> string \<Rightarrow> jsval \<Rightarrow> world \<Rightarrow> world \<times> outcome" where
  "applySuggestion env repoDir failedTest testFile suggestion w =
     (case member suggestion ''confidence'' of
        None \<Rightarrow> (w, Caught)
      | Some confidence \<Rightarrow>
          if confidence = JStr ''high'' \<or> confidence = JStr ''medium'' then
            (case (Option.bind (member suggestion ''suggestedSelector'') to_string,
                   Option.bind (member suggestion ''explanation'') to_string) of
               (Some shown, Some reason) \<Rightarrow>
                 (case updatePageObjectSelector env repoDir testFile suggestion w of
                    (w', True) \<Rightarrow>
                      (w', Applied
                         \<lparr>corr_test = ft_name failedTest,
                          corr_file = testFile,
                          corr_originalSelector =
                            (case member suggestion ''originalSelector'' of
                               Some v \<Rightarrow> v | None \<Rightarrow> JUndefined),
                          corr_newSelector =
                            (case member suggestion ''suggestedSelector'' of
                               Some v \<Rightarrow> v | None \<Rightarrow> JUndefined)\<rparr>)
                  | (w', False) \<Rightarrow> (w', NoChange))
             | _ \<Rightarrow> (w, Caught))
          else (w, LowConfidence))"

text \<open>The loop body for one failed test, inside its \<open>try\<close>.\<close>

definition attempt :: "env \<Rightarrow> string \<Rightarrow> failedTest \<Rightarrow> world \<Rightarrow> world \<times> outcome" where
  "attempt env repoDir failedTest w =
     (case obtainSuggestion env repoDir failedTest w of
        (w1, Inl out) \<Rightarrow> (w1, out)
      | (w1, Inr (testFile, suggestion)) \<Rightarrow>
          applySuggestion env repoDir failedTest testFile suggestion w1)"

fun correctLoop ::
    "env \<Rightarrow> string \<Rightarrow> failedTest list \<Rightarrow> world \<times> correction list \<Rightarrow> world \<times> correction list" where
  "correctLoop env repoDir [] (w, corrections) = (w, corrections)"
| "correctLoop env repoDir (failedTest # rest) (w, corrections) =
     (case attempt env repoDir failedTest w of
        (w', Applied c) \<Rightarrow> correctLoop env repoDir rest (w', corrections @ [c])
      | (w', other) \<Rightarrow> correctLoop env repoDir rest (w', corrections))"

definition correctFailedSelectors ::
    "env \<Rightarrow> string \<Rightarrow> failedTest list \<Rightarrow> world \<Rightarrow> world \<times> correction list" where
  "correctFailedSelectors env repoDir tests w = correctLoop env repoDir tests (w, [])"

section \<open>Repair Loop Controller: \<open>triggerAgent3\<close>\<close>

datatype error = PrepareFailed | CommitFailed | PushFailed | ReportFailed | Agent1Failed | Agent2Failed

text \<open>
  Steps 2 to 4 of \<open>triggerAgent3\<close>: the initial run, the corrections when a test
  failed, the rerun when a correction was applied. None of them throws.
\<close>

definition repairLoop :: "env \<Rightarrow> string \<Rightarrow> int \<Rightarrow> world \<Rightarrow> world \<times> testResults" where
  "repairLoop env repoDir start w =
     (let t0 = \<lparr>totalTests = 0, passed = 0, failed = 0, correctedSelectors = [],
                startTime = start, endTime = None, correctionPrUrl = JUndefined\<rparr>;
          (w1, initialResults) = runPlaywrightTests env w;
          t1 = t0\<lparr>totalTests := totalTests initialResults,
                  passed := passed initialResults,
                  failed := failed initialResults\<rparr>
      in if failed t1 > 0 then
           (let (w2, corrections) = correctFailedSelectors env repoDir (failedTests initialResults) w1;
                t2 = t1\<lparr>correctedSelectors := corrections\<rparr>
            in if length corrections > 0 then
                 (let (w3, retryResults) = runPlaywrightTests env w2
                  in (w3, t2\<lparr>passed := passed retryResults, failed := failed retryResults\<rparr>))
               else (w2, t2))
         else (w1, t1))"

text \<open>
  Step 5: commit, push and pull request of the corrections, when there are any.
  \<open>createCorrectionPR\<close> catches its own errors.
\<close>

definition publishCorrections :: "env \<Rightarrow> testResults \<Rightarrow> world \<Rightarrow> world \<times> (error + testResults)" where
  "publishCorrections env t w =
     (if length (correctedSelectors t) > 0 then
        (if \<not> commit_ok env (log w) then (emit Commit w, Inl CommitFailed)
         else if \<not> push_ok env (log (emit Commit w)) then (emit Push (emit Commit w), Inl PushFailed)
         else
           (emit CreatePR (emit Push (emit Commit w)),
            Inr (t\<lparr>correctionPrUrl := create_pr env (log (emit Push (emit Commit w)))\<rparr>)))
      else (w, Inr t))"

text \<open>
  \<open>triggerAgent3\<close>. An error of the preparation, of the publication or of the report
  reaches the \<open>catch\<close>, which posts a failure comment and throws the error again.
\<close>

definition triggerAgent3 :: "env \<Rightarrow> string \<Rightarrow> world \<Rightarrow> world \<times> (error + testResults)" where
  "triggerAgent3 env repoDir w =
     (let w0 = emit (AgentStarted 3) w;
          start = clock env (log w0);
          (checkout, prepared) = clone env (log w0);
          w1 = emit Clone (w0\<lparr>files := checkout\<rparr>)
      in if \<not> prepared then (emit ReportFailure w1, Inl PrepareFailed)
         else
           (let (w2, t) = repairLoop env repoDir start w1;
                t' = t\<lparr>endTime := Some (clock env (log w2))\<rparr>
            in case publishCorrections env t' w2 of
                 (w3, Inl e) \<Rightarrow> (emit ReportFailure w3, Inl e)
               | (w3, Inr t'') \<Rightarrow>
                   if jira_ok env (log w3) then (emit (ReportResults t'') w3, Inr t'')
                   else (emit ReportFailure (emit (ReportResults t'') w3), Inl ReportFailed)))"

section \<open>Workflow Orchestrator: \<open>triggerFullWorkflow\<close>\<close>

text \<open>
  \<open>triggerAgent2\<close> runs its steps in one \<open>try\<close> and throws again what it catches.
\<close>

definition triggerAgent2 :: "env \<Rightarrow> world \<Rightarrow> world \<times> (error + unit)" where
  "triggerAgent2 env w =
     (let w1 = emit (AgentStarted 2) w
      in if agent2_ok env (log w1) then (w1, Inr ()) else (w1, Inl Agent2Failed))"

text \<open>
  \<open>triggerAgent1\<close>: after its own steps it calls \<open>triggerAgent2\<close> inside the same
  \<open>try\<close>, whose \<open>catch\<close> throws the error again.
\<close>

definition triggerAgent1 :: "env \<Rightarrow> world \<Rightarrow> world \<times> (error + unit)" where
  "triggerAgent1 env w =
     (let w1 = emit (AgentStarted 1) w
      in if \<not> agent1_ok env (log w1) then (w1, Inl Agent1Failed)
         else triggerAgent2 env w1)"

text \<open>
  \<open>triggerFullWorkflow\<close>: the call of \<open>triggerAgent1\<close> is guarded by the outer \<open>try\<close>
  only, the calls of \<open>triggerAgent2\<close> and \<open>triggerAgent3\<close> by a \<open>try\<close> of their own.
  Reading the test cases back from their file is guarded too and decides nothing; the
  address \<open>prUrl\<close> is only passed on to the report.
\<close>

definition triggerFullWorkflow :: "env \<Rightarrow> string \<Rightarrow> world \<Rightarrow> world" where
  "triggerFullWorkflow env repoDir w =
     (case triggerAgent1 env w of
        (w1, Inl e) \<Rightarrow> emit FatalLogged w1
      | (w1, Inr u) \<Rightarrow>
          (let w2 = (case triggerAgent2 env w1 of
                       (w', Inl e) \<Rightarrow> emit (StageErrorLogged 2) w'
                     | (w', Inr u') \<Rightarrow> w');
               w3 = (case triggerAgent3 env repoDir w2 of
                       (w', Inl e) \<Rightarrow> emit (StageErrorLogged 3) w'
                     | (w', Inr t) \<Rightarrow> w')
           in emit WorkflowCompleted w3))"

section \<open>Notions used to state the properties\<close>

text \<open>
  The events of a correction pass, and those of the publication and the report.
\<close>

fun correction_event :: "event \<Rightarrow> bool" where
  "correction_event (FetchPage url) = True"
| "correction_event (AskAdvisor sel html) = True"
| "correction_event (WriteFile p c) = True"
| "correction_event e = False"

fun write_event :: "event \<Rightarrow> bool" where
  "write_event (WriteFile p c) = True"
| "write_event e = False"

definition consult_event :: "event \<Rightarrow> bool" where
  \<comment> \<open>an event of a correction pass that writes no file\<close>
  "consult_event e = (correction_event e \<and> \<not> write_event e)"

fun publish_event :: "event \<Rightarrow> bool" where
  "publish_event Commit = True"
| "publish_event Push = True"
| "publish_event CreatePR = True"
| "publish_event (ReportResults t) = True"
| "publish_event ReportFailure = True"
| "publish_event e = False"

text \<open>
  \<open>grows P w w'\<close>: the second world has the log of the first, followed by events that
  all satisfy \<open>P\<close>.
\<close>

definition grows :: "(event \<Rightarrow> bool) \<Rightarrow> world \<Rightarrow> world \<Rightarrow> bool" where
  "grows P w w' = (prefix (log w) (log w') \<and> list_all P (drop (length (log w)) (log w')))"


text \<open>
  The values of \<open>triggerAgent3\<close> by the names the source gives them: the world once
  the repository is prepared, \<open>initialResults\<close>, \<open>corrections\<close> (with the world the
  correction pass leaves), \<open>retryResults\<close>, and \<open>testResults\<close> at the end of step 4.
\<close>

definition preparedWorld :: "env \<Rightarrow> world \<Rightarrow> world" where
  "preparedWorld env w =
     emit Clone (emit (AgentStarted 3) w\<lparr>files := fst (clone env (log w @ [AgentStarted 3]))\<rparr>)"

definition initialResults :: "env \<Rightarrow> world \<Rightarrow> testRunResult" where
  "initialResults env w = snd (runPlaywrightTests env (preparedWorld env w))"

definition corrections :: "env \<Rightarrow> string \<Rightarrow> world \<Rightarrow> world \<times> correction list" where
  "corrections env repoDir w =
     correctFailedSelectors env repoDir (failedTests (initialResults env w))
       (fst (runPlaywrightTests env (preparedWorld env w)))"

definition retryResults :: "env \<Rightarrow> string \<Rightarrow> world \<Rightarrow> testRunResult" where
  "retryResults env repoDir w = snd (runPlaywrightTests env (fst (corrections env repoDir w)))"

definition aggregated :: "env \<Rightarrow> string \<Rightarrow> world \<Rightarrow> testResults" where
  "aggregated env repoDir w =
     snd (repairLoop env repoDir (clock env (log w @ [AgentStarted 3])) (preparedWorld env w))"

text \<open>
  A text laid out around the places where a locator stands between two delimiters:
  each site comes with the text before it (its gap) and its two delimiters, and a tail
  follows the last site. \<open>assemble sel sites tail\<close> is the text with \<open>sel\<close> at every
  site.
\<close>

fun assemble :: "string \<Rightarrow> (string \<times> char \<times> char) list \<Rightarrow> string \<Rightarrow> string" where
  "assemble sel [] tail = tail"
| "assemble sel ((gap, d1, d2) # sites) tail = gap @ d1 # sel @ d2 # assemble sel sites tail"

text \<open>
  No match of the first selector pattern begins inside the gap before a site.
\<close>

definition no_site_begins :: "string \<Rightarrow> string \<Rightarrow> char \<Rightarrow> char \<Rightarrow> bool" where
  "no_site_begins orig gap d1 d2 =
     list_all (\<lambda>k. selectorPattern1 (escapeRegex orig) (drop k (gap @ d1 # orig @ [d2])) = None)
       [0..<length gap]"

text \<open>
  The sites are those that a scan from left to right finds when it takes up again
  after each site: the delimiters are delimiters, no match begins in a gap, and the
  tail has no match.
\<close>

fun scanned_sites :: "string \<Rightarrow> (string \<times> char \<times> char) list \<Rightarrow> string \<Rightarrow> bool" where
  "scanned_sites orig [] tail = (\<not> regex_test (selectorPattern1 (escapeRegex orig)) tail)"
| "scanned_sites orig ((gap, d1, d2) # sites) tail =
     (open_delim d1 \<and> close_delim d2 \<and> no_site_begins orig gap d1 d2 \<and> scanned_sites orig sites tail)"

text \<open>
  The same, and no match begins at the closing delimiter of a site either: no two
  occurrences of the delimited locator share a delimiter. \<open>prev\<close> is the closing
  delimiter of the site before, or nothing at the start of the text.
\<close>

fun separate_sites :: "string \<Rightarrow> string \<Rightarrow> (string \<times> char \<times> char) list \<Rightarrow> string \<Rightarrow> bool" where
  "separate_sites orig prev [] tail =
     (\<not> regex_test (selectorPattern1 (escapeRegex orig)) (prev @ tail))"
| "separate_sites orig prev ((gap, d1, d2) # sites) tail =
     (open_delim d1 \<and> close_delim d2 \<and> no_site_begins orig (prev @ gap) d1 d2 \<and>
      separate_sites orig [d2] sites tail)"

definition delimiter :: "char \<Rightarrow> bool" where
  "delimiter c = (open_delim c \<or> close_delim c)"

text \<open>
  The stages of one pass of the correction loop, as conditions on a failed test and on
  the world: the locator, the test file and its text are found; the advisor's answer is
  obtained and parsed; the suggestion passes the confidence gate and can be printed.
  \<open>consulted\<close> is the world once the page has been fetched and the advisor asked.
  \<open>patch_fails\<close> says that the patch call ends without a write: a file cannot be
  read, the test file imports no page object, the building of the patterns or of the
  template throws, no pattern matches, or the write is refused.
\<close>

definition located :: "env \<Rightarrow> string \<Rightarrow> failedTest \<Rightarrow> world \<Rightarrow> string \<Rightarrow> string \<Rightarrow> string \<Rightarrow> bool" where
  "located env repoDir t w sel f content =
     (to_string (ft_name t) \<noteq> None \<and>
      (case ft_error t of JStr err \<Rightarrow> failedSelectorOf err = Some sel | _ \<Rightarrow> False) \<and>
      ft_file t = JStr f \<and>
      files w (path_join env repoDir f) = Some content)"

definition consulted :: "world \<Rightarrow> string \<Rightarrow> string \<Rightarrow> string \<Rightarrow> world" where
  "consulted w url sel html = emit (AskAdvisor sel (take 5000 html)) (emit (FetchPage url) w)"

definition advised :: "env \<Rightarrow> world \<Rightarrow> string \<Rightarrow> string \<Rightarrow> string \<Rightarrow> jsval \<Rightarrow> bool" where
  "advised env w url sel html suggestion =
     (http_get env (log w) url = JStr html \<and> html \<noteq> [] \<and>
      (case ask_ai env (log w @ [FetchPage url]) sel (take 5000 html) of
         None \<Rightarrow> False
       | Some txt \<Rightarrow> json_parse env (stripFences txt) = Some suggestion))"

definition confident :: "jsval \<Rightarrow> bool" where
  "confident suggestion =
     ((member suggestion ''confidence'' = Some (JStr ''high'') \<or>
       member suggestion ''confidence'' = Some (JStr ''medium'')) \<and>
      Option.bind (member suggestion ''suggestedSelector'') to_string \<noteq> None \<and>
      Option.bind (member suggestion ''explanation'') to_string \<noteq> None)"

definition patch_fails :: "env \<Rightarrow> string \<Rightarrow> string \<Rightarrow> jsval \<Rightarrow> world \<Rightarrow> bool" where
  "patch_fails env repoDir testFile suggestion w =
     (case pageObjectPath env repoDir testFile w of
        None \<Rightarrow> True
      | Some p \<Rightarrow>
          (case files w p of
             None \<Rightarrow> True
           | Some old \<Rightarrow>
               (case patchContent suggestion old of
                  Patched new \<Rightarrow> \<not> can_write env (log w) p
                | _ \<Rightarrow> True)))"

section \<open>An example run\<close>

text \<open>
  A checkout with one test file and a given page object; a first report with one passed
  and one failed test, whose error names the locator \<open>#old\<close>; an advisor that
  answers with a given suggestion; a second report with three passed tests.
  The first call of \<open>triggerAgent2\<close> fails.
\<close>

definition quoted :: "string \<Rightarrow> string" where
  "quoted s = CHR 0x27 # s @ [CHR 0x27]"

definition demo_suggestion :: "string \<Rightarrow> string \<Rightarrow> string \<Rightarrow> jsval" where
  "demo_suggestion orig new conf =
     JObj [(''originalSelector'', JStr orig), (''suggestedSelector'', JStr new),
           (''confidence'', JStr conf), (''explanation'', JStr ''renamed'')]"

definition demo_report1 :: jsval where
  "demo_report1 = JObj [(''suites'', JArr [JObj [(''tests'', JArr
      [JObj [(''title'', JStr ''opens''), (''file'', JStr ''tests/login.spec.ts''), (''status'', JStr ''passed'')],
       JObj [(''title'', JStr ''logs in''), (''file'', JStr ''tests/login.spec.ts''), (''status'', JStr ''failed''),
             (''error'', JObj [(''message'', JStr (''locator('' @ quoted ''#old'' @ '') not found''))])]])]])]"

definition demo_report2 :: jsval where
  "demo_report2 = JObj [(''suites'', JArr [JObj [(''tests'', JArr
      [JObj [(''status'', JStr ''passed'')], JObj [(''status'', JStr ''passed'')], JObj [(''status'', JStr ''passed'')]])]])]"

definition demo_files :: "string \<Rightarrow> (string \<rightharpoonup> string)" where
  "demo_files pageObject =
     [''repo/tests/login.spec.ts'' \<mapsto>
        ''import { LoginPage } from '' @ quoted ''LoginPage'' @ ''; page.goto('' @ quoted ''http://app'' @ '')'',
      ''repo/tests/LoginPage.ts'' \<mapsto> pageObject]"

definition demo_env :: "jsval \<Rightarrow> string \<Rightarrow> env" where
  "demo_env suggestion pageObject =
     \<lparr>json_parse = (\<lambda>txt. if txt = ''report 1'' then Some demo_report1
                          else if txt = ''report 2'' then Some demo_report2
                          else if txt = ''suggestion'' then Some suggestion
                          else None),
      path_join = (\<lambda>a b. a @ ''/'' @ b),
      path_dirname = (\<lambda>p. ''tests''),
      agent1_ok = (\<lambda>l. True),
      agent2_ok = (\<lambda>l. False),
      clone = (\<lambda>l. (demo_files pageObject, True)),
      exec_tests = (\<lambda>l fs. if RunTests \<in> set l then Some ''report 2'' else Some ''report 1''),
      http_get = (\<lambda>l url. JStr ''<html>''),
      ask_ai = (\<lambda>l sel html. Some ''suggestion''),
      can_write = (\<lambda>l p. True),
      commit_ok = (\<lambda>l. True),
      push_ok = (\<lambda>l. True),
      create_pr = (\<lambda>l. JNull),
      jira_ok = (\<lambda>l. True),
      clock = (\<lambda>l. int (length l))\<rparr>"

definition demo_world :: world where
  "demo_world = \<lparr>files = Map.empty, log = []\<rparr>"

definition demo_checkout :: "string \<Rightarrow> world" where
  "demo_checkout pageObject = \<lparr>files = demo_files pageObject, log = []\<rparr>"

definition demo_failed :: failedTest where
  "demo_failed =
     \<lparr>ft_name = JStr ''logs in'', ft_file = JStr ''tests/login.spec.ts'',
      ft_error = JStr (''locator('' @ quoted ''#old'' @ '') not found'')\<rparr>"


section \<open>Verified properties\<close>

subsection \<open>The result model of the Test Runner Adapter\<close>

lemma forEach_inv:
  assumes "\<And>x s. x \<in> set xs \<Longrightarrow> P s \<Longrightarrow> P (snd (f x s))" and "P s"
  shows "P (snd (forEach f xs s))"
  using assms
proof (induction xs arbitrary: s)
  case Nil
  then show ?case by simp
next
  case (Cons x xs)
  have step: "P (snd (f x s))" using Cons.prems by simp
  show ?case
  proof (cases "f x s")
    case (Pair b s')
    with step have "P s'" by simp
    with Pair Cons show ?thesis by (cases b) auto
  qed
qed

lemma optForEach_inv:
  assumes "\<And>x s. x \<in> set (case v of JArr xs \<Rightarrow> xs | _ \<Rightarrow> []) \<Longrightarrow> P s \<Longrightarrow> P (snd (f x s))" and "P s"
  shows "P (snd (optForEach f v s))"
  using assms by (cases v) (auto intro: forEach_inv)

lemma member_nullish: "member t k = None \<longleftrightarrow> nullish t"
  by (cases t) (auto simp: nullish_def)

lemma error_message_Some: "\<not> nullish t \<Longrightarrow> \<exists>er. error_message t = Some er"
proof -
  assume "\<not> nullish t"
  then obtain e where e: "member t ''error'' = Some e"
    by (metis member_nullish not_None_eq)
  show ?thesis
  proof (cases "nullish e")
    case True
    with e show ?thesis by (simp add: error_message_def)
  next
    case False
    then obtain v where "member e ''message'' = Some v"
      by (metis member_nullish not_None_eq)
    with e False show ?thesis by (simp add: error_message_def)
  qed
qed

lemma count_test_len:
  "failed r = length (failedTests r) \<Longrightarrow>
   failed (snd (count_test t r)) = length (failedTests (snd (count_test t r)))"
proof -
  assume inv: "failed r = length (failedTests r)"
  show ?thesis
  proof (cases "nullish t")
    case True
    then have "member t ''status'' = None" by (simp add: member_nullish)
    with inv show ?thesis by (simp add: count_test_def)
  next
    case False
    then obtain st ti fi where m: "member t ''status'' = Some st" "member t ''title'' = Some ti"
      "member t ''file'' = Some fi"
      by (metis member_nullish not_None_eq)
    from False obtain er where e: "error_message t = Some er"
      using error_message_Some by blast
    from inv m e show ?thesis by (simp add: count_test_def Let_def)
  qed
qed

lemma count_test_sum:
  assumes "\<not> nullish t" and "totalTests r = passed r + failed r"
  shows "totalTests (snd (count_test t r)) = passed (snd (count_test t r)) + failed (snd (count_test t r))"
proof -
  from assms(1) obtain st ti fi where m: "member t ''status'' = Some st" "member t ''title'' = Some ti"
      "member t ''file'' = Some fi"
    by (metis member_nullish not_None_eq)
  from assms(1) obtain er where e: "error_message t = Some er"
    using error_message_Some by blast
  from assms(2) m e show ?thesis by (simp add: count_test_def Let_def)
qed

lemma count_suite_len:
  "failed r = length (failedTests r) \<Longrightarrow>
   failed (snd (count_suite s r)) = length (failedTests (snd (count_suite s r)))"
  unfolding count_suite_def
  by (cases "member s ''tests''")
     (auto intro!: optForEach_inv [where P = "\<lambda>r. failed r = length (failedTests r)"] count_test_len)

lemma count_suite_sum:
  assumes "list_all (\<lambda>t. \<not> nullish t) (suite_tests s)" and "totalTests r = passed r + failed r"
  shows "totalTests (snd (count_suite s r)) = passed (snd (count_suite s r)) + failed (snd (count_suite s r))"
proof (cases "member s ''tests''")
  case None
  with assms(2) show ?thesis by (simp add: count_suite_def)
next
  case (Some ts)
  have "totalTests (snd (optForEach count_test ts r))
        = passed (snd (optForEach count_test ts r)) + failed (snd (optForEach count_test ts r))"
  proof (rule optForEach_inv [where P = "\<lambda>r. totalTests r = passed r + failed r"])
    fix x and s' :: testRunResult assume "x \<in> set (case ts of JArr xs \<Rightarrow> xs | _ \<Rightarrow> [])"
      and "totalTests s' = passed s' + failed s'"
    moreover from this(1) have "x \<in> set (suite_tests s)"
      using Some by (simp add: suite_tests_def)
    ultimately show "totalTests (snd (count_test x s')) =
       passed (snd (count_test x s')) + failed (snd (count_test x s'))"
      using assms(1) by (intro count_test_sum) (auto simp: list_all_iff)
  qed (rule assms(2))
  with Some show ?thesis by (simp add: count_suite_def)
qed

lemma count_report_len:
  "failed r = length (failedTests r) \<Longrightarrow>
   failed (snd (count_report s r)) = length (failedTests (snd (count_report s r)))"
  unfolding count_report_def
  by (cases "member s ''suites''")
     (auto intro!: optForEach_inv [where P = "\<lambda>r. failed r = length (failedTests r)"] count_suite_len)

lemma count_report_sum:
  assumes "list_all (\<lambda>t. \<not> nullish t) (report_tests res)" and "totalTests r = passed r + failed r"
  shows "totalTests (snd (count_report res r)) = passed (snd (count_report res r)) + failed (snd (count_report res r))"
proof (cases "member res ''suites''")
  case None
  with assms(2) show ?thesis by (simp add: count_report_def)
next
  case (Some ss)
  have "totalTests (snd (optForEach count_suite ss r))
        = passed (snd (optForEach count_suite ss r)) + failed (snd (optForEach count_suite ss r))"
  proof (rule optForEach_inv [where P = "\<lambda>r. totalTests r = passed r + failed r"])
    fix x and s' :: testRunResult assume "x \<in> set (case ss of JArr xs \<Rightarrow> xs | _ \<Rightarrow> [])"
      and inv: "totalTests s' = passed s' + failed s'"
    then obtain xs where "ss = JArr xs" "x \<in> set xs" by (cases ss) auto
    with Some assms(1) have "list_all (\<lambda>t. \<not> nullish t) (suite_tests x)"
      by (auto simp: report_tests_def list_all_iff)
    then show "totalTests (snd (count_suite x s')) =
       passed (snd (count_suite x s')) + failed (snd (count_suite x s'))"
      using inv by (rule count_suite_sum)
  qed (rule assms(2))
  with Some show ?thesis by (simp add: count_report_def)
qed

text \<open>
  C5, as the code has it. Every TestRunResult that \<open>runPlaywrightTests\<close> builds has
  \<open>failed\<close> equal to the length of \<open>failedTests\<close>, whatever the report holds, also
  when it is missing or unparseable. \<open>totalTests = passed + failed\<close> holds for a missing
  or unparseable report and for every parsed report none of whose test entries is
  \<open>null\<close>.
\<close>

theorem runPlaywrightTests_invariant:
  "failed (parseResults report) = length (failedTests (parseResults report)) \<and>
   (no_null_test report \<longrightarrow>
      totalTests (parseResults report) = passed (parseResults report) + failed (parseResults report))"
proof (cases report)
  case None
  then show ?thesis by (simp add: parseResults_def emptyRun_def)
next
  case (Some res)
  have "failed (snd (count_report res emptyRun)) = length (failedTests (snd (count_report res emptyRun)))"
    by (rule count_report_len) (simp add: emptyRun_def)
  moreover have "no_null_test report \<Longrightarrow>
      totalTests (snd (count_report res emptyRun))
        = passed (snd (count_report res emptyRun)) + failed (snd (count_report res emptyRun))"
    using Some by (intro count_report_sum) (simp_all add: no_null_test_def emptyRun_def)
  ultimately show ?thesis using Some by (simp add: parseResults_def)
qed

theorem runPlaywrightTests_invariant_witness:
  "no_null_test (Some (JObj [(''suites'', JArr [JObj [(''tests'',
       JArr [JObj [(''status'', JStr ''passed'')], JObj [(''status'', JStr ''failed'')]])]])])) \<and>
   parseResults (Some (JObj [(''suites'', JArr [JObj [(''tests'',
       JArr [JObj [(''status'', JStr ''passed'')], JObj [(''status'', JStr ''failed'')]])]])]))
     = \<lparr>totalTests = 2, passed = 1, failed = 1,
        failedTests = [\<lparr>ft_name = JUndefined, ft_file = JUndefined, ft_error = JStr ''Unknown error''\<rparr>]\<rparr> \<and>
   totalTests (parseResults (Some (JObj [(''suites'', JArr [JObj [(''tests'',
       JArr [JObj [(''status'', JStr ''passed'')], JObj [(''status'', JStr ''failed'')]])]])])))
     = passed (parseResults (Some (JObj [(''suites'', JArr [JObj [(''tests'',
       JArr [JObj [(''status'', JStr ''passed'')], JObj [(''status'', JStr ''failed'')]])]])])))
       + failed (parseResults (Some (JObj [(''suites'', JArr [JObj [(''tests'',
       JArr [JObj [(''status'', JStr ''passed'')], JObj [(''status'', JStr ''failed'')]])]])])))"
proof -
  let ?R = "Some (JObj [(''suites'', JArr [JObj [(''tests'',
       JArr [JObj [(''status'', JStr ''passed'')], JObj [(''status'', JStr ''failed'')]])]])])"
  have h: "no_null_test ?R"
    by (simp add: no_null_test_def report_tests_def suite_tests_def nullish_def)
  have v: "parseResults ?R = \<lparr>totalTests = 2, passed = 1, failed = 1,
        failedTests = [\<lparr>ft_name = JUndefined, ft_file = JUndefined, ft_error = JStr ''Unknown error''\<rparr>]\<rparr>"
    by (simp add: parseResults_def count_report_def count_suite_def count_test_def emptyRun_def
        error_message_def nullish_def)
  from runPlaywrightTests_invariant [of ?R] h v show ?thesis by blast
qed

text \<open>
  C5 as stated fails: a report whose only test entry is \<open>null\<close> is counted in
  \<open>totalTests\<close> before \<open>test.status\<close> throws, and the \<open>catch\<close> keeps the count.
\<close>

theorem runPlaywrightTests_null_test_counterexample:
  "totalTests (parseResults (Some (JObj [(''suites'', JArr [JObj [(''tests'', JArr [JNull])]])])))
   \<noteq> passed (parseResults (Some (JObj [(''suites'', JArr [JObj [(''tests'', JArr [JNull])]])]))) +
     failed (parseResults (Some (JObj [(''suites'', JArr [JObj [(''tests'', JArr [JNull])]])])))"
  by (simp add: parseResults_def count_report_def count_suite_def count_test_def emptyRun_def)

subsection \<open>Patterns\<close>

lemma regex_test_iff: "regex_test m s \<longleftrightarrow> (\<exists>k\<le>length s. m (drop k s) \<noteq> None)"
proof (induction s)
  case Nil
  then show ?case by simp
next
  case (Cons c cs)
  show ?case
  proof
    assume "regex_test m (c # cs)"
    then consider "m (c # cs) \<noteq> None" | "regex_test m cs" by auto
    then show "\<exists>k\<le>length (c # cs). m (drop k (c # cs)) \<noteq> None"
    proof cases
      case 1
      then have "m (drop 0 (c # cs)) \<noteq> None" by simp
      then show ?thesis by blast
    next
      case 2
      with Cons.IH obtain k where "k \<le> length cs" "m (drop k cs) \<noteq> None" by blast
      then have "Suc k \<le> length (c # cs)" "m (drop (Suc k) (c # cs)) \<noteq> None" by simp_all
      then show ?thesis by blast
    qed
  next
    assume "\<exists>k\<le>length (c # cs). m (drop k (c # cs)) \<noteq> None"
    then obtain k where k: "k \<le> length (c # cs)" "m (drop k (c # cs)) \<noteq> None" by blast
    show "regex_test m (c # cs)"
    proof (cases k)
      case 0
      with k show ?thesis by simp
    next
      case (Suc j)
      with k have "j \<le> length cs" "m (drop j cs) \<noteq> None" by simp_all
      with Cons.IH show ?thesis by auto
    qed
  qed
qed

lemma lit_Some: "lit p s = Some r \<longleftrightarrow> s = p @ r"
  by (auto simp: lit_def prefix_def)

lemma one_Some: "one P s = Some (c, r) \<longleftrightarrow> s = c # r \<and> P c"
  by (cases s) (auto simp: one_def)


lemma selectorPattern2_Some:
  "selectorPattern2 src s = Some (caps, n) \<longleftrightarrow>
     (\<exists>sel d1 d2 r. regex_literal src = Some sel \<and> s = '': '' @ d1 # sel @ d2 # r \<and> quote_delim d1 \<and>
        quote_delim d2 \<and> caps = [] \<and> n = length sel + 4)"
  by (auto simp: selectorPattern2_def lit_Some one_Some Option.bind_eq_Some_conv)

lemma quote_delim_open: "quote_delim c \<Longrightarrow> open_delim c"
  by (auto simp: quote_delim_def open_delim_def)

lemma quote_delim_close: "quote_delim c \<Longrightarrow> close_delim c"
  by (auto simp: quote_delim_def close_delim_def)

lemma selectorPattern2_dead:
  assumes "regex_test (selectorPattern2 src) s"
  shows "regex_test (selectorPattern1 src) s"
proof -
  from assms obtain k where k: "k \<le> length s" "selectorPattern2 src (drop k s) \<noteq> None"
    by (auto simp: regex_test_iff)
  then obtain caps n where "selectorPattern2 src (drop k s) = Some (caps, n)" by auto
  then obtain sel d1 d2 r where m: "regex_literal src = Some sel"
      "drop k s = '': '' @ d1 # sel @ d2 # r" "quote_delim d1" "quote_delim d2"
    by (auto simp: selectorPattern2_Some)
  have "drop (k + 2) s = drop 2 (drop k s)" by (simp add: add.commute)
  also have "\<dots> = d1 # sel @ d2 # r" using m(2) by simp
  finally have d: "drop (k + 2) s = d1 # sel @ d2 # r" .
  then have "k + 2 \<le> length s"
    by (metis drop_all list.distinct(1) not_le_imp_less less_imp_le_nat nat_le_linear)
  moreover have "selectorPattern1 src (drop (k + 2) s) \<noteq> None"
    using m d by (auto simp: selectorPattern1_def lit_Some one_Some quote_delim_open quote_delim_close lit_def one_def)
  ultimately show ?thesis by (auto simp: regex_test_iff)
qed


subsection \<open>escapeRegex\<close>

lemma escapeRegex_general:
  "replace_global specialPattern [CHR 0x5C, CHR ''$'', CHR ''&''] left s
     = concat (map (\<lambda>c. if regex_special c then [CHR 0x5C, c] else [c]) s)"
proof (induction s arbitrary: left)
  case Nil
  then show ?case by (simp add: specialPattern_def)
next
  case (Cons c cs)
  show ?case
  proof (cases "regex_special c")
    case True
    then have "specialPattern (c # cs) = Some ([], 1)" by (simp add: specialPattern_def)
    then show ?thesis using True Cons.IH by simp
  next
    case False
    then have "specialPattern (c # cs) = None" by (simp add: specialPattern_def)
    then show ?thesis using False Cons.IH by simp
  qed
qed

lemma regex_literal_escaped:
  "regex_literal (concat (map (\<lambda>c. if regex_special c then [CHR 0x5C, c] else [c]) s)) = Some s"
proof (induction s)
  case Nil
  then show ?case by simp
next
  case (Cons c cs)
  let ?e = "concat (map (\<lambda>c. if regex_special c then [CHR 0x5C, c] else [c]) cs)"
  show ?case
  proof (cases "regex_special c")
    case True
    then show ?thesis using Cons.IH by simp
  next
    case False
    then have nb: "c \<noteq> CHR 0x5C" by (auto simp: regex_special_def)
    show ?thesis
    proof (cases ?e)
      case Nil
      then have "cs = []" by (cases cs) (auto split: if_splits)
      with False show ?thesis by simp
    next
      case (Cons d t)
      from Cons.IH have "regex_literal ?e = Some cs" .
      with Cons False nb show ?thesis by simp
    qed
  qed
qed

lemma regex_literal_escapeRegex [simp]: "regex_literal (escapeRegex s) = Some s"
  by (simp add: escapeRegex_def escapeRegex_general regex_literal_escaped)

subsection \<open>The Artifact Patcher\<close>

lemma log_emit [simp]: "log (emit e w) = log w @ [e]"
  by (simp add: emit_def)

lemma files_emit [simp]: "files (emit e w) = files w"
  by (simp add: emit_def)

lemma patchContent_Patched:
  assumes "patchContent suggestion old = Patched new"
  shows "\<exists>orig tmpl. member suggestion ''originalSelector'' = Some (JStr orig) \<and>
           replacementTemplate suggestion = Some tmpl \<and>
           regex_test (selectorPattern1 (escapeRegex orig)) old \<and>
           new = replace_global (selectorPattern1 (escapeRegex orig)) tmpl [] old"
proof -
  from assms obtain orig where o: "member suggestion ''originalSelector'' = Some (JStr orig)"
    by (auto simp: patchContent_def split: option.splits jsval.splits)
  with assms have a: "applyPatterns (selectorPatterns orig) (replacementTemplate suggestion) old = Patched new"
    by (simp add: patchContent_def)
  have dead: "\<not> regex_test (selectorPattern1 (escapeRegex orig)) old \<Longrightarrow>
      \<not> regex_test (selectorPattern2 (escapeRegex orig)) old"
    using selectorPattern2_dead by blast
  from a dead obtain tmpl where "replacementTemplate suggestion = Some tmpl"
      "regex_test (selectorPattern1 (escapeRegex orig)) old"
      "new = replace_global (selectorPattern1 (escapeRegex orig)) tmpl [] old"
    by (auto simp: selectorPatterns_def split: if_splits option.splits)
  with o show ?thesis by blast
qed


lemma updatePageObjectSelector_cases:
  assumes "updatePageObjectSelector env repoDir testFile suggestion w = (w', updated)"
  shows "(\<not> updated \<and> w' = w) \<or>
         (updated \<and> (\<exists>p old new. pageObjectPath env repoDir testFile w = Some p \<and>
             files w p = Some old \<and> patchContent suggestion old = Patched new \<and>
             w' = emit (WriteFile p new) (w\<lparr>files := (files w)(p \<mapsto> new)\<rparr>)))"
  using assms
  by (auto simp: updatePageObjectSelector_def split: option.splits patch.splits if_splits)

lemma updatePageObjectSelector_written:
  assumes "updatePageObjectSelector env repoDir testFile suggestion w = (w', True)"
  shows "\<exists>p old orig tmpl.
           pageObjectPath env repoDir testFile w = Some p \<and>
           files w p = Some old \<and>
           member suggestion ''originalSelector'' = Some (JStr orig) \<and>
           replacementTemplate suggestion = Some tmpl \<and>
           regex_test (selectorPattern1 (escapeRegex orig)) old \<and>
           files w' = (files w)(p \<mapsto> replace_global (selectorPattern1 (escapeRegex orig)) tmpl [] old) \<and>
           log w' = log w @ [WriteFile p (replace_global (selectorPattern1 (escapeRegex orig)) tmpl [] old)]"
proof -
  from updatePageObjectSelector_cases [OF assms] obtain p old new where
    c: "pageObjectPath env repoDir testFile w = Some p" "files w p = Some old"
       "patchContent suggestion old = Patched new"
       "w' = emit (WriteFile p new) (w\<lparr>files := (files w)(p \<mapsto> new)\<rparr>)"
    by blast
  from patchContent_Patched [OF c(3)] obtain orig tmpl where
    "member suggestion ''originalSelector'' = Some (JStr orig)"
    "replacementTemplate suggestion = Some tmpl"
    "regex_test (selectorPattern1 (escapeRegex orig)) old"
    "new = replace_global (selectorPattern1 (escapeRegex orig)) tmpl [] old"
    by blast
  with c show ?thesis by auto
qed







subsection \<open>How the log grows\<close>

lemma grows_iff: "grows P w w' \<longleftrightarrow> (\<exists>evs. log w' = log w @ evs \<and> list_all P evs)"
  by (auto simp: grows_def prefix_def)

lemma grows_refl [simp]: "grows P w w"
  by (simp add: grows_iff)

lemma grows_emit: "P e \<Longrightarrow> grows P w w' \<Longrightarrow> grows P w (emit e w')"
  by (auto simp: grows_iff)

lemma grows_trans: "grows P w w' \<Longrightarrow> grows P w' w'' \<Longrightarrow> grows P w w''"
  by (auto simp: grows_iff)

lemma grows_mono: "grows P w w' \<Longrightarrow> (\<And>e. P e \<Longrightarrow> Q e) \<Longrightarrow> grows Q w w'"
  by (auto simp: grows_iff list_all_iff)

lemma grows_files_update [simp]: "grows P (w\<lparr>files := f\<rparr>) w' = grows P w w'"
  "grows P w (w'\<lparr>files := f\<rparr>) = grows P w w'"
  by (simp_all add: grows_def)

subsection \<open>One pass of the correction loop\<close>

lemma consult_event_simps [simp]:
  "consult_event (FetchPage u)" "consult_event (AskAdvisor s h)"
  by (simp_all add: consult_event_def)

lemma askAdvisor_effect:
  "files (fst (askAdvisor env f sel html w)) = files w \<and>
   grows consult_event w (fst (askAdvisor env f sel html w))"
  by (auto simp: askAdvisor_def Let_def grows_emit split: option.splits)

lemma obtainSuggestion_effect:
  "files (fst (obtainSuggestion env repoDir t w)) = files w \<and>
   grows consult_event w (fst (obtainSuggestion env repoDir t w))"
proof -
  have a: "\<And>f sel html w1. files w1 = files w \<Longrightarrow> grows consult_event w w1 \<Longrightarrow>
      files (fst (askAdvisor env f sel html w1)) = files w \<and>
      grows consult_event w (fst (askAdvisor env f sel html w1))"
    using askAdvisor_effect grows_trans by metis
  show ?thesis
    unfolding obtainSuggestion_def Let_def
    by (auto split: option.splits jsval.splits intro!: a [THEN conjunct1] a [THEN conjunct2] grows_emit)
qed

lemma updatePageObjectSelector_grows:
  "grows write_event w (fst (updatePageObjectSelector env repoDir f sug w))"
  by (auto simp: updatePageObjectSelector_def grows_iff split: option.splits patch.splits)

lemma applySuggestion_cases:
  assumes "applySuggestion env repoDir t f sug w = (w', out)"
  shows "((out = Caught \<or> out = LowConfidence \<or> out = NoChange) \<and> w' = w) \<or>
         ((member sug ''confidence'' = Some (JStr ''high'') \<or> member sug ''confidence'' = Some (JStr ''medium'')) \<and>
          updatePageObjectSelector env repoDir f sug w = (w', True) \<and>
          out = Applied \<lparr>corr_test = ft_name t, corr_file = f,
                  corr_originalSelector = (case member sug ''originalSelector'' of Some v \<Rightarrow> v | None \<Rightarrow> JUndefined),
                  corr_newSelector = (case member sug ''suggestedSelector'' of Some v \<Rightarrow> v | None \<Rightarrow> JUndefined)\<rparr>)"
proof (cases "member sug ''confidence''")
  case None
  with assms show ?thesis by (auto simp: applySuggestion_def)
next
  case (Some conf)
  show ?thesis
  proof (cases "conf = JStr ''high'' \<or> conf = JStr ''medium''")
    case False
    with Some assms show ?thesis by (auto simp: applySuggestion_def)
  next
    case True
    obtain w2 b where u: "updatePageObjectSelector env repoDir f sug w = (w2, b)"
      by (cases "updatePageObjectSelector env repoDir f sug w")
    from updatePageObjectSelector_cases [OF u] have nb: "\<not> b \<Longrightarrow> w2 = w" by auto
    from Some True u nb assms show ?thesis
      by (cases b) (auto simp: applySuggestion_def split: option.splits)
  qed
qed

lemma attempt_cases:
  assumes "attempt env repoDir t w = (w', out)"
  shows "((\<forall>c. out \<noteq> Applied c) \<and> files w' = files w \<and> grows consult_event w w') \<or>
         (\<exists>w1 f sug.
            obtainSuggestion env repoDir t w = (w1, Inr (f, sug)) \<and>
            (member sug ''confidence'' = Some (JStr ''high'') \<or> member sug ''confidence'' = Some (JStr ''medium'')) \<and>
            updatePageObjectSelector env repoDir f sug w1 = (w', True) \<and>
            out = Applied \<lparr>corr_test = ft_name t, corr_file = f,
                  corr_originalSelector = (case member sug ''originalSelector'' of Some v \<Rightarrow> v | None \<Rightarrow> JUndefined),
                  corr_newSelector = (case member sug ''suggestedSelector'' of Some v \<Rightarrow> v | None \<Rightarrow> JUndefined)\<rparr>)"
proof -
  obtain w1 r where o: "obtainSuggestion env repoDir t w = (w1, r)"
    by (cases "obtainSuggestion env repoDir t w")
  from obtainSuggestion_effect [of env repoDir t w] o
  have e: "files w1 = files w" "grows consult_event w w1" by simp_all
  show ?thesis
  proof (cases r)
    case (Inl out')
    with o assms have "w' = w1" "out = out'" by (simp_all add: attempt_def)
    moreover from o Inl have "\<forall>c. out' \<noteq> Applied c"
      by (auto simp: obtainSuggestion_def askAdvisor_def Let_def split: option.splits jsval.splits if_splits)
    ultimately show ?thesis using e by simp
  next
    case (Inr fs)
    obtain f sug where fs: "fs = (f, sug)" by (cases fs)
    with o Inr assms have a: "applySuggestion env repoDir t f sug w1 = (w', out)"
      by (simp add: attempt_def)
    from applySuggestion_cases [OF a] o Inr fs e show ?thesis by auto
  qed
qed

lemma attempt_grows: "grows correction_event w (fst (attempt env repoDir t w))"
proof -
  obtain w' out where a: "attempt env repoDir t w = (w', out)"
    by (cases "attempt env repoDir t w")
  from attempt_cases [OF a] show ?thesis
  proof
    assume "(\<forall>c. out \<noteq> Applied c) \<and> files w' = files w \<and> grows consult_event w w'"
    then have "grows correction_event w w'"
      by (auto intro: grows_mono simp: consult_event_def)
    with a show ?thesis by simp
  next
    assume "\<exists>w1 f sug.
            obtainSuggestion env repoDir t w = (w1, Inr (f, sug)) \<and>
            (member sug ''confidence'' = Some (JStr ''high'') \<or> member sug ''confidence'' = Some (JStr ''medium'')) \<and>
            updatePageObjectSelector env repoDir f sug w1 = (w', True) \<and>
            out = Applied \<lparr>corr_test = ft_name t, corr_file = f,
                  corr_originalSelector = (case member sug ''originalSelector'' of Some v \<Rightarrow> v | None \<Rightarrow> JUndefined),
                  corr_newSelector = (case member sug ''suggestedSelector'' of Some v \<Rightarrow> v | None \<Rightarrow> JUndefined)\<rparr>"
    then obtain w1 f sug where o: "obtainSuggestion env repoDir t w = (w1, Inr (f, sug))"
      and u: "updatePageObjectSelector env repoDir f sug w1 = (w', True)" by blast
    from obtainSuggestion_effect [of env repoDir t w] o have "grows consult_event w w1" by simp
    then have g1: "grows correction_event w w1" by (auto intro: grows_mono simp: consult_event_def)
    from updatePageObjectSelector_grows [of w1 env repoDir f sug] u have "grows write_event w1 w'" by simp
    then have "grows correction_event w1 w'"
    proof (rule grows_mono)
      fix e assume "write_event e" then show "correction_event e" by (cases e) simp_all
    qed
    with g1 a show ?thesis by (auto intro: grows_trans)
  qed
qed

subsection \<open>The correction loop\<close>


lemma correctLoop_grows:
  "grows correction_event w (fst (correctLoop env repoDir ts (w, cs)))"
proof (induction ts arbitrary: w cs)
  case Nil
  then show ?case by simp
next
  case (Cons t ts)
  obtain w' out where a: "attempt env repoDir t w = (w', out)" by (cases "attempt env repoDir t w")
  from attempt_grows [of w env repoDir t] a have g: "grows correction_event w w'" by simp
  show ?case
  proof (cases out)
    case (Applied c)
    with a g Cons.IH [of w' "cs @ [c]"] show ?thesis by (auto intro: grows_trans)
  qed (use a g Cons.IH [of w' cs] in \<open>auto intro: grows_trans\<close>)
qed

lemma correctFailedSelectors_grows:
  "grows correction_event w (fst (correctFailedSelectors env repoDir ts w))"
  by (simp add: correctFailedSelectors_def correctLoop_grows)

text \<open>
  C6. A suggestion whose \<open>confidence\<close> is neither \<open>high\<close> nor \<open>medium\<close> is never
  applied: the pass for that failed test ends in the low-confidence branch (or in the
  \<open>catch\<close>, when the suggestion is \<open>null\<close>), no file is changed or written, and the
  loop goes on with the list of corrections as it was.
\<close>

theorem low_confidence_never_applied:
  assumes "obtainSuggestion env repoDir t w = (w1, Inr (testFile, suggestion))"
    and "member suggestion ''confidence'' \<noteq> Some (JStr ''high'')"
    and "member suggestion ''confidence'' \<noteq> Some (JStr ''medium'')"
  shows "attempt env repoDir t w
           = (w1, if member suggestion ''confidence'' = None then Caught else LowConfidence) \<and>
         files w1 = files w \<and>
         grows consult_event w w1 \<and>
         correctLoop env repoDir (t # rest) (w, cs) = correctLoop env repoDir rest (w1, cs)"
proof -
  have a: "attempt env repoDir t w
           = (w1, if member suggestion ''confidence'' = None then Caught else LowConfidence)"
    using assms by (auto simp: attempt_def applySuggestion_def split: option.splits)
  from obtainSuggestion_effect [of env repoDir t w] assms(1)
  have "files w1 = files w" "grows consult_event w w1" by simp_all
  moreover from a have "correctLoop env repoDir (t # rest) (w, cs) = correctLoop env repoDir rest (w1, cs)"
    by (simp split: if_splits)
  ultimately show ?thesis using a by simp
qed


text \<open>
  C8, as the code has it. A correction is recorded only when the patch call reported a
  change, that is when the locator pattern matched the text of the page object and the
  file was written back; the text written may be the text that was there. A pass that
  records no correction has changed no file.
\<close>

theorem correction_recorded_only_when_written:
  assumes "attempt env repoDir t w = (w', out)"
  shows "(\<forall>c. out = Applied c \<longrightarrow>
            (\<exists>p old orig new evs.
               files w p = Some old \<and>
               corr_originalSelector c = JStr orig \<and>
               regex_test (selectorPattern1 (escapeRegex orig)) old \<and>
               files w' = (files w)(p \<mapsto> new) \<and>
               log w' = log w @ evs @ [WriteFile p new])) \<and>
         ((\<forall>c. out \<noteq> Applied c) \<longrightarrow> files w' = files w)"
proof -
  from attempt_cases [OF assms]
  consider "\<forall>c. out \<noteq> Applied c" "files w' = files w"
    | w1 f sug where "obtainSuggestion env repoDir t w = (w1, Inr (f, sug))"
        "updatePageObjectSelector env repoDir f sug w1 = (w', True)"
        "out = Applied \<lparr>corr_test = ft_name t, corr_file = f,
                  corr_originalSelector = (case member sug ''originalSelector'' of Some v \<Rightarrow> v | None \<Rightarrow> JUndefined),
                  corr_newSelector = (case member sug ''suggestedSelector'' of Some v \<Rightarrow> v | None \<Rightarrow> JUndefined)\<rparr>"
    by blast
  then show ?thesis
  proof cases
    case 1
    then show ?thesis by simp
  next
    case 2
    from obtainSuggestion_effect [of env repoDir t w] 2(1)
    have f1: "files w1 = files w" and "grows consult_event w w1" by simp_all
    then obtain evs where evs: "log w1 = log w @ evs" by (auto simp: grows_iff)
    from updatePageObjectSelector_written [OF 2(2)] obtain p old orig tmpl where
      u: "files w1 p = Some old" "member sug ''originalSelector'' = Some (JStr orig)"
         "regex_test (selectorPattern1 (escapeRegex orig)) old"
         "files w' = (files w1)(p \<mapsto> replace_global (selectorPattern1 (escapeRegex orig)) tmpl [] old)"
         "log w' = log w1 @ [WriteFile p (replace_global (selectorPattern1 (escapeRegex orig)) tmpl [] old)]"
      by auto
    have "\<exists>p old orig new evs.
               files w p = Some old \<and>
               corr_originalSelector \<lparr>corr_test = ft_name t, corr_file = f,
                  corr_originalSelector = (case member sug ''originalSelector'' of Some v \<Rightarrow> v | None \<Rightarrow> JUndefined),
                  corr_newSelector = (case member sug ''suggestedSelector'' of Some v \<Rightarrow> v | None \<Rightarrow> JUndefined)\<rparr> = JStr orig \<and>
               regex_test (selectorPattern1 (escapeRegex orig)) old \<and>
               files w' = (files w)(p \<mapsto> new) \<and>
               log w' = log w @ evs @ [WriteFile p new]"
      using u f1 evs by (intro exI [of _ p] exI [of _ old] exI [of _ orig]
          exI [of _ "replace_global (selectorPattern1 (escapeRegex orig)) tmpl [] old"] exI [of _ evs]) simp
    with 2(3) show ?thesis by simp
  qed
qed

theorem low_confidence_never_applied_witness:
  "snd (obtainSuggestion (demo_env (demo_suggestion ''#old'' ''#new'' ''low'') []) ''repo'' demo_failed
          (demo_checkout (''page.locator('' @ quoted ''#old'' @ '')'')))
     = Inr (''tests/login.spec.ts'', demo_suggestion ''#old'' ''#new'' ''low'') \<and>
   member (demo_suggestion ''#old'' ''#new'' ''low'') ''confidence'' = Some (JStr ''low'') \<and>
   snd (attempt (demo_env (demo_suggestion ''#old'' ''#new'' ''low'') []) ''repo'' demo_failed
          (demo_checkout (''page.locator('' @ quoted ''#old'' @ '')''))) = LowConfidence \<and>
   files (fst (attempt (demo_env (demo_suggestion ''#old'' ''#new'' ''low'') []) ''repo'' demo_failed
          (demo_checkout (''page.locator('' @ quoted ''#old'' @ '')''))))
     = files (demo_checkout (''page.locator('' @ quoted ''#old'' @ '')'')) \<and>
   log (fst (attempt (demo_env (demo_suggestion ''#old'' ''#new'' ''low'') []) ''repo'' demo_failed
          (demo_checkout (''page.locator('' @ quoted ''#old'' @ '')''))))
     = [FetchPage ''http://app'', AskAdvisor ''#old'' ''<html>''] \<and>
   snd (correctLoop (demo_env (demo_suggestion ''#old'' ''#new'' ''low'') []) ''repo'' [demo_failed]
          (demo_checkout (''page.locator('' @ quoted ''#old'' @ '')''), [])) = []"
proof -
  let ?S = "demo_suggestion ''#old'' ''#new'' ''low''"
  let ?E = "demo_env ?S []"
  let ?W = "demo_checkout (''page.locator('' @ quoted ''#old'' @ '')'')"
  let ?O = "obtainSuggestion ?E ''repo'' demo_failed ?W"
  have s: "snd ?O = Inr (''tests/login.spec.ts'', ?S)" by code_simp
  then have h1: "?O = (fst ?O, Inr (''tests/login.spec.ts'', ?S))" by (cases ?O) simp
  have c: "member ?S ''confidence'' = Some (JStr ''low'')" by code_simp
  then have h2: "member ?S ''confidence'' \<noteq> Some (JStr ''high'')"
    and h3: "member ?S ''confidence'' \<noteq> Some (JStr ''medium'')" by simp_all
  have l: "log (fst ?O) = [FetchPage ''http://app'', AskAdvisor ''#old'' ''<html>'']" by code_simp
  from low_confidence_never_applied [OF h1 h2 h3, of "[]" "[]"] c
  have "attempt ?E ''repo'' demo_failed ?W = (fst ?O, LowConfidence)"
    and "files (fst ?O) = files ?W"
    and "correctLoop ?E ''repo'' [demo_failed] (?W, []) = (fst ?O, [])"
    by simp_all
  with s c l show ?thesis by simp
qed


theorem correction_recorded_only_when_written_witness:
  "snd (attempt (demo_env (demo_suggestion ''#old'' ''#new'' ''high'') []) ''repo'' demo_failed
          (demo_checkout (''page.locator('' @ quoted ''#old'' @ '')'')))
     = Applied \<lparr>corr_test = JStr ''logs in'', corr_file = ''tests/login.spec.ts'',
         corr_originalSelector = JStr ''#old'', corr_newSelector = JStr ''#new''\<rparr> \<and>
   (\<exists>p old orig new evs.
       files (demo_checkout (''page.locator('' @ quoted ''#old'' @ '')'')) p = Some old \<and>
       JStr ''#old'' = JStr orig \<and>
       regex_test (selectorPattern1 (escapeRegex orig)) old \<and>
       files (fst (attempt (demo_env (demo_suggestion ''#old'' ''#new'' ''high'') []) ''repo'' demo_failed
          (demo_checkout (''page.locator('' @ quoted ''#old'' @ '')''))))
         = (files (demo_checkout (''page.locator('' @ quoted ''#old'' @ '')'')))(p \<mapsto> new) \<and>
       log (fst (attempt (demo_env (demo_suggestion ''#old'' ''#new'' ''high'') []) ''repo'' demo_failed
          (demo_checkout (''page.locator('' @ quoted ''#old'' @ '')''))))
         = log (demo_checkout (''page.locator('' @ quoted ''#old'' @ '')'')) @ evs @ [WriteFile p new])"
proof -
  let ?E = "demo_env (demo_suggestion ''#old'' ''#new'' ''high'') []"
  let ?W = "demo_checkout (''page.locator('' @ quoted ''#old'' @ '')'')"
  let ?A = "attempt ?E ''repo'' demo_failed ?W"
  let ?c = "\<lparr>corr_test = JStr ''logs in'', corr_file = ''tests/login.spec.ts'',
         corr_originalSelector = JStr ''#old'', corr_newSelector = JStr ''#new''\<rparr>"
  have s: "snd ?A = Applied ?c" by code_simp
  then have h: "?A = (fst ?A, Applied ?c)" by (cases ?A) simp
  from correction_recorded_only_when_written [OF h] s show ?thesis by simp
qed

text \<open>
  C8 as stated fails: when the advisor suggests the locator that is already there, the
  pattern matches, the page object is written back with the text it had, and a
  correction is recorded.
\<close>

theorem correction_recorded_unchanged_content_counterexample:
  "snd (attempt (demo_env (demo_suggestion ''#old'' ''#old'' ''high'') []) ''repo'' demo_failed
          (demo_checkout (''page.locator('' @ quoted ''#old'' @ '')'')))
     = Applied \<lparr>corr_test = JStr ''logs in'', corr_file = ''tests/login.spec.ts'',
         corr_originalSelector = JStr ''#old'', corr_newSelector = JStr ''#old''\<rparr> \<and>
   files (fst (attempt (demo_env (demo_suggestion ''#old'' ''#old'' ''high'') []) ''repo'' demo_failed
          (demo_checkout (''page.locator('' @ quoted ''#old'' @ '')'')))) ''repo/tests/LoginPage.ts''
     = files (demo_checkout (''page.locator('' @ quoted ''#old'' @ '')'')) ''repo/tests/LoginPage.ts'' \<and>
   files (demo_checkout (''page.locator('' @ quoted ''#old'' @ '')'')) ''repo/tests/LoginPage.ts''
     = Some (''page.locator('' @ quoted ''#old'' @ '')'')"
  by code_simp

subsection \<open>The Repair Loop Controller\<close>

lemma runPlaywrightTests_world [simp]: "fst (runPlaywrightTests env w) = emit RunTests w"
  by (simp add: runPlaywrightTests_def)

lemma log_preparedWorld [simp]: "log (preparedWorld env w) = log w @ [AgentStarted 3, Clone]"
  by (simp add: preparedWorld_def)

lemma correction_event_not_run: "list_all correction_event evs \<Longrightarrow> RunTests \<notin> set evs"
  by (auto simp: list_all_iff)

lemma publish_event_not_run: "list_all publish_event evs \<Longrightarrow> RunTests \<notin> set evs"
  by (auto simp: list_all_iff)

lemma repairLoop_unfold:
  "repairLoop env repoDir start w =
     (let init = snd (runPlaywrightTests env w);
          c = correctFailedSelectors env repoDir (failedTests init) (emit RunTests w);
          t1 = \<lparr>totalTests = totalTests init, passed = passed init, failed = failed init,
                correctedSelectors = [], startTime = start, endTime = None,
                correctionPrUrl = JUndefined\<rparr>
      in if failed init = 0 then (emit RunTests w, t1)
         else if snd c = [] then (fst c, t1)
         else (emit RunTests (fst c),
               t1\<lparr>passed := passed (snd (runPlaywrightTests env (fst c))),
                   failed := failed (snd (runPlaywrightTests env (fst c))),
                   correctedSelectors := snd c\<rparr>))"
  by (simp add: repairLoop_def Let_def split_beta runPlaywrightTests_def)

lemma aggregated_unfold:
  "aggregated env repoDir w =
     (let t1 = \<lparr>totalTests = totalTests (initialResults env w), passed = passed (initialResults env w),
                failed = failed (initialResults env w), correctedSelectors = [],
                startTime = clock env (log w @ [AgentStarted 3]), endTime = None,
                correctionPrUrl = JUndefined\<rparr>
      in if failed (initialResults env w) = 0 then t1
         else if snd (corrections env repoDir w) = [] then t1
         else t1\<lparr>passed := passed (retryResults env repoDir w),
                 failed := failed (retryResults env repoDir w),
                 correctedSelectors := snd (corrections env repoDir w)\<rparr>)"
  by (simp add: aggregated_def repairLoop_unfold initialResults_def corrections_def
      retryResults_def Let_def)

lemma repairLoop_log:
  "\<exists>evs. list_all correction_event evs \<and>
     log (fst (repairLoop env repoDir start w))
       = log w @ RunTests # evs @
           (if correctedSelectors (snd (repairLoop env repoDir start w)) = [] then [] else [RunTests])"
proof -
  let ?init = "snd (runPlaywrightTests env w)"
  let ?c = "correctFailedSelectors env repoDir (failedTests ?init) (emit RunTests w)"
  from correctFailedSelectors_grows [of "emit RunTests w" env repoDir "failedTests ?init"]
  obtain evs where evs: "log (fst ?c) = log w @ RunTests # evs" "list_all correction_event evs"
    by (auto simp: grows_iff)
  show ?thesis
  proof (cases "failed ?init = 0")
    case True
    then show ?thesis by (simp add: repairLoop_unfold Let_def)
  next
    case False
    then show ?thesis using evs by (auto simp: repairLoop_unfold Let_def)
  qed
qed

lemma publishCorrections_effect:
  "\<exists>post. log (fst (publishCorrections env t w)) = log w @ post \<and> set post \<subseteq> {Commit, Push, CreatePR} \<and>
     (\<forall>t'. snd (publishCorrections env t w) = Inr t' \<longrightarrow> (\<exists>u. t' = t\<lparr>correctionPrUrl := u\<rparr>))"
proof -
  have "t = t\<lparr>correctionPrUrl := correctionPrUrl t\<rparr>" by simp
  then have "\<exists>u. t = t\<lparr>correctionPrUrl := u\<rparr>" by blast
  then show ?thesis
    by (auto simp: publishCorrections_def)
qed

lemma triggerAgent3_unfold:
  assumes "snd (clone env (log w @ [AgentStarted 3]))"
  shows "triggerAgent3 env repoDir w =
     (let r = repairLoop env repoDir (clock env (log w @ [AgentStarted 3])) (preparedWorld env w);
          p = publishCorrections env ((snd r)\<lparr>endTime := Some (clock env (log (fst r)))\<rparr>) (fst r)
      in case snd p of
           Inl e \<Rightarrow> (emit ReportFailure (fst p), Inl e)
         | Inr t \<Rightarrow>
             if jira_ok env (log (fst p)) then (emit (ReportResults t) (fst p), Inr t)
             else (emit ReportFailure (emit (ReportResults t) (fst p)), Inl ReportFailed))"
  using assms
  by (simp add: triggerAgent3_def Let_def split_beta preparedWorld_def)

lemma triggerAgent3_prepared:
  assumes "snd (clone env (log w @ [AgentStarted 3]))"
  shows "\<exists>post. list_all publish_event post \<and>
           log (fst (triggerAgent3 env repoDir w))
             = log (fst (repairLoop env repoDir (clock env (log w @ [AgentStarted 3])) (preparedWorld env w))) @ post \<and>
           (\<forall>t. snd (triggerAgent3 env repoDir w) = Inr t \<or> ReportResults t \<in> set post \<longrightarrow>
              (\<exists>e u. t = (aggregated env repoDir w)\<lparr>endTime := Some e, correctionPrUrl := u\<rparr>))"
proof -
  let ?start = "clock env (log w @ [AgentStarted 3])"
  obtain w2 t where r: "repairLoop env repoDir ?start (preparedWorld env w) = (w2, t)"
    by (cases "repairLoop env repoDir ?start (preparedWorld env w)")
  then have agg: "aggregated env repoDir w = t" by (simp add: aggregated_def)
  let ?t' = "t\<lparr>endTime := Some (clock env (log w2))\<rparr>"
  obtain w3 res where p: "publishCorrections env ?t' w2 = (w3, res)"
    by (cases "publishCorrections env ?t' w2")
  from publishCorrections_effect [of env ?t' w2] p
  obtain post where post1: "log w3 = log w2 @ post" and sub: "set post \<subseteq> {Commit, Push, CreatePR}"
    and noRep: "\<forall>t''. res = Inr t'' \<longrightarrow> (\<exists>u. t'' = ?t'\<lparr>correctionPrUrl := u\<rparr>)"
    by auto
  from sub have post2: "list_all publish_event post" by (auto simp: list_all_iff)
  from sub have nr: "\<forall>t''. ReportResults t'' \<notin> set post" by auto
  note post = post1 post2
  have tr: "triggerAgent3 env repoDir w =
      (case res of Inl e \<Rightarrow> (emit ReportFailure w3, Inl e)
       | Inr t'' \<Rightarrow> if jira_ok env (log w3) then (emit (ReportResults t'') w3, Inr t'')
                    else (emit ReportFailure (emit (ReportResults t'') w3), Inl ReportFailed))"
    using r p by (simp add: triggerAgent3_unfold [OF assms] Let_def split: sum.splits)
  show ?thesis
  proof (cases res)
    case (Inl e)
    with tr post nr r show ?thesis
      by (intro exI [of _ "post @ [ReportFailure]"]) auto
  next
    case (Inr t'')
    with noRep obtain u where u: "t'' = ?t'\<lparr>correctionPrUrl := u\<rparr>" by blast
    then have shape: "\<exists>e u. t'' = (aggregated env repoDir w)\<lparr>endTime := Some e, correctionPrUrl := u\<rparr>"
      using agg by blast
    show ?thesis
    proof (cases "jira_ok env (log w3)")
      case True
      with tr Inr post nr r shape show ?thesis
        by (intro exI [of _ "post @ [ReportResults t'']"]) auto
    next
      case False
      with tr Inr post nr r shape show ?thesis
        by (intro exI [of _ "post @ [ReportResults t'', ReportFailure]"]) auto
    qed
  qed
qed

lemma triggerAgent3_log:
  assumes "snd (clone env (log w @ [AgentStarted 3]))"
  shows "\<exists>evs post. list_all correction_event evs \<and> list_all publish_event post \<and>
      log (fst (triggerAgent3 env repoDir w))
        = log w @ [AgentStarted 3, Clone, RunTests] @ evs @
            (if correctedSelectors (aggregated env repoDir w) = [] then [] else [RunTests]) @ post \<and>
      (\<forall>t. snd (triggerAgent3 env repoDir w) = Inr t \<or> ReportResults t \<in> set post \<longrightarrow>
          (\<exists>e u. t = (aggregated env repoDir w)\<lparr>endTime := Some e, correctionPrUrl := u\<rparr>))"
proof -
  let ?start = "clock env (log w @ [AgentStarted 3])"
  from triggerAgent3_prepared [OF assms, of repoDir] obtain post where
    p: "list_all publish_event post"
       "log (fst (triggerAgent3 env repoDir w))
          = log (fst (repairLoop env repoDir ?start (preparedWorld env w))) @ post"
       "\<forall>t. snd (triggerAgent3 env repoDir w) = Inr t \<or> ReportResults t \<in> set post \<longrightarrow>
              (\<exists>e u. t = (aggregated env repoDir w)\<lparr>endTime := Some e, correctionPrUrl := u\<rparr>)"
    by blast
  from repairLoop_log [of env repoDir ?start "preparedWorld env w"] obtain evs where
    e: "list_all correction_event evs"
       "log (fst (repairLoop env repoDir ?start (preparedWorld env w)))
          = log (preparedWorld env w) @ RunTests # evs @
              (if correctedSelectors (aggregated env repoDir w) = [] then [] else [RunTests])"
    by (auto simp: aggregated_def)
  from p e show ?thesis
    by (intro exI [of _ evs] exI [of _ post]) simp
qed


text \<open>
  C3. In every execution of \<open>triggerAgent3\<close> that gets past the preparation of the
  repository, the events are: the initial run, the events of one correction pass
  (page fetches, advisor requests, file writes), one more run exactly when the list of
  corrections is not empty, and then only publication and report events. So the
  runner runs once when no correction was applied and twice when one was, and nothing
  is corrected after the rerun.
\<close>

theorem triggerAgent3_reruns:
  assumes "snd (clone env (log w @ [AgentStarted 3]))"
  shows "(\<exists>evs post. list_all correction_event evs \<and> list_all publish_event post \<and>
            log (fst (triggerAgent3 env repoDir w))
              = log w @ [AgentStarted 3, Clone, RunTests] @ evs @
                  (if correctedSelectors (aggregated env repoDir w) = [] then [] else [RunTests]) @ post) \<and>
         length (filter (\<lambda>e. e = RunTests) (drop (length (log w)) (log (fst (triggerAgent3 env repoDir w)))))
           = (if correctedSelectors (aggregated env repoDir w) = [] then 1 else 2) \<and>
         correctedSelectors (aggregated env repoDir w)
           = (if failed (initialResults env w) = 0 then [] else snd (corrections env repoDir w))"
proof -
  from triggerAgent3_log [OF assms, of repoDir] obtain evs post where
    s: "list_all correction_event evs" "list_all publish_event post"
       "log (fst (triggerAgent3 env repoDir w))
          = log w @ [AgentStarted 3, Clone, RunTests] @ evs @
              (if correctedSelectors (aggregated env repoDir w) = [] then [] else [RunTests]) @ post"
    by blast
  have n1: "filter (\<lambda>e. e = RunTests) evs = []"
    using correction_event_not_run [OF s(1)] by (auto simp: filter_empty_conv)
  have n2: "filter (\<lambda>e. e = RunTests) post = []"
    using publish_event_not_run [OF s(2)] by (auto simp: filter_empty_conv)
  have c: "length (filter (\<lambda>e. e = RunTests) (drop (length (log w)) (log (fst (triggerAgent3 env repoDir w)))))
           = (if correctedSelectors (aggregated env repoDir w) = [] then 1 else 2)"
    using s(3) n1 n2 by simp
  have a: "correctedSelectors (aggregated env repoDir w)
           = (if failed (initialResults env w) = 0 then [] else snd (corrections env repoDir w))"
    by (simp add: aggregated_unfold Let_def)
  from s c a show ?thesis by blast
qed


text \<open>
  C10. On the retried path the rerun replaces \<open>passed\<close> and \<open>failed\<close> only:
  \<open>totalTests\<close> stays the total of the initial run, \<open>startTime\<close> and the list of
  corrections stay as they were, in \<open>testResults\<close> at the end of step 4 and in what is
  reported and returned. So \<open>totalTests = passed + failed\<close> holds at the end exactly
  when the initial total equals the rerun's \<open>passed + failed\<close>.
\<close>

theorem triggerAgent3_retried_frame:
  assumes "snd (clone env (log w @ [AgentStarted 3]))"
    and "failed (initialResults env w) > 0"
    and "snd (corrections env repoDir w) \<noteq> []"
  shows "aggregated env repoDir w
           = \<lparr>totalTests = totalTests (initialResults env w),
              passed = passed (retryResults env repoDir w),
              failed = failed (retryResults env repoDir w),
              correctedSelectors = snd (corrections env repoDir w),
              startTime = clock env (log w @ [AgentStarted 3]), endTime = None,
              correctionPrUrl = JUndefined\<rparr> \<and>
         (\<forall>t. snd (triggerAgent3 env repoDir w) = Inr t \<or>
               ReportResults t \<in> set (drop (length (log w)) (log (fst (triggerAgent3 env repoDir w)))) \<longrightarrow>
               totalTests t = totalTests (initialResults env w) \<and>
               passed t = passed (retryResults env repoDir w) \<and>
               failed t = failed (retryResults env repoDir w) \<and>
               correctedSelectors t = snd (corrections env repoDir w) \<and>
               startTime t = clock env (log w @ [AgentStarted 3])) \<and>
         (totalTests (aggregated env repoDir w)
            = passed (aggregated env repoDir w) + failed (aggregated env repoDir w)
          \<longleftrightarrow> totalTests (initialResults env w)
            = passed (retryResults env repoDir w) + failed (retryResults env repoDir w))"
proof -
  have a: "aggregated env repoDir w
           = \<lparr>totalTests = totalTests (initialResults env w),
              passed = passed (retryResults env repoDir w),
              failed = failed (retryResults env repoDir w),
              correctedSelectors = snd (corrections env repoDir w),
              startTime = clock env (log w @ [AgentStarted 3]), endTime = None,
              correctionPrUrl = JUndefined\<rparr>"
    using assms(2,3) by (simp add: aggregated_unfold Let_def)
  from triggerAgent3_log [OF assms(1), of repoDir] obtain evs post where
    s: "list_all correction_event evs"
       "log (fst (triggerAgent3 env repoDir w))
          = log w @ [AgentStarted 3, Clone, RunTests] @ evs @
              (if correctedSelectors (aggregated env repoDir w) = [] then [] else [RunTests]) @ post"
       "\<forall>t. snd (triggerAgent3 env repoDir w) = Inr t \<or> ReportResults t \<in> set post \<longrightarrow>
          (\<exists>e u. t = (aggregated env repoDir w)\<lparr>endTime := Some e, correctionPrUrl := u\<rparr>)"
    by blast
  have inpost: "ReportResults t \<in> set post"
    if "ReportResults t \<in> set (drop (length (log w)) (log (fst (triggerAgent3 env repoDir w))))" for t
  proof -
    from s(1) have "ReportResults t \<notin> set evs" by (auto simp: list_all_iff)
    with that s(2) show ?thesis by (auto split: if_splits)
  qed
  have frame: "totalTests t = totalTests (initialResults env w) \<and>
               passed t = passed (retryResults env repoDir w) \<and>
               failed t = failed (retryResults env repoDir w) \<and>
               correctedSelectors t = snd (corrections env repoDir w) \<and>
               startTime t = clock env (log w @ [AgentStarted 3])"
    if "snd (triggerAgent3 env repoDir w) = Inr t \<or>
        ReportResults t \<in> set (drop (length (log w)) (log (fst (triggerAgent3 env repoDir w))))" for t
  proof -
    from that inpost have "snd (triggerAgent3 env repoDir w) = Inr t \<or> ReportResults t \<in> set post"
      by blast
    with s(3) obtain e u where "t = (aggregated env repoDir w)\<lparr>endTime := Some e, correctionPrUrl := u\<rparr>"
      by blast
    then show ?thesis by (simp add: a)
  qed
  from a frame show ?thesis by simp
qed

theorem triggerAgent3_reruns_witness:
  "snd (clone (demo_env (demo_suggestion ''#old'' ''#new'' ''high'') (''page.locator('' @ quoted ''#old'' @ '')''))
          (log demo_world @ [AgentStarted 3])) \<and>
   correctedSelectors (aggregated (demo_env (demo_suggestion ''#old'' ''#new'' ''high'')
          (''page.locator('' @ quoted ''#old'' @ '')'')) ''repo'' demo_world) \<noteq> [] \<and>
   length (filter (\<lambda>e. e = RunTests) (drop (length (log demo_world))
      (log (fst (triggerAgent3 (demo_env (demo_suggestion ''#old'' ''#new'' ''high'')
          (''page.locator('' @ quoted ''#old'' @ '')'')) ''repo'' demo_world))))) = 2 \<and>
   snd (clone (demo_env (demo_suggestion ''#old'' ''#new'' ''low'') (''page.locator('' @ quoted ''#old'' @ '')''))
          (log demo_world @ [AgentStarted 3])) \<and>
   correctedSelectors (aggregated (demo_env (demo_suggestion ''#old'' ''#new'' ''low'')
          (''page.locator('' @ quoted ''#old'' @ '')'')) ''repo'' demo_world) = [] \<and>
   length (filter (\<lambda>e. e = RunTests) (drop (length (log demo_world))
      (log (fst (triggerAgent3 (demo_env (demo_suggestion ''#old'' ''#new'' ''low'')
          (''page.locator('' @ quoted ''#old'' @ '')'')) ''repo'' demo_world))))) = 1"
proof -
  let ?P = "''page.locator('' @ quoted ''#old'' @ '')''"
  let ?H = "demo_env (demo_suggestion ''#old'' ''#new'' ''high'') ?P"
  let ?L = "demo_env (demo_suggestion ''#old'' ''#new'' ''low'') ?P"
  have h: "snd (clone ?H (log demo_world @ [AgentStarted 3]))" by code_simp
  have l: "snd (clone ?L (log demo_world @ [AgentStarted 3]))" by code_simp
  have ch: "correctedSelectors (aggregated ?H ''repo'' demo_world) \<noteq> []" by code_simp
  have cl: "correctedSelectors (aggregated ?L ''repo'' demo_world) = []" by code_simp
  from triggerAgent3_reruns [OF h, of "''repo''"] ch
  have nh: "length (filter (\<lambda>e. e = RunTests) (drop (length (log demo_world))
      (log (fst (triggerAgent3 ?H ''repo'' demo_world))))) = 2" by simp
  from triggerAgent3_reruns [OF l, of "''repo''"] cl
  have nl: "length (filter (\<lambda>e. e = RunTests) (drop (length (log demo_world))
      (log (fst (triggerAgent3 ?L ''repo'' demo_world))))) = 1" by simp
  from h l ch cl nh nl show ?thesis by simp
qed


theorem triggerAgent3_retried_frame_witness:
  "snd (clone (demo_env (demo_suggestion ''#old'' ''#new'' ''high'') (''page.locator('' @ quoted ''#old'' @ '')''))
          (log demo_world @ [AgentStarted 3])) \<and>
   failed (initialResults (demo_env (demo_suggestion ''#old'' ''#new'' ''high'')
          (''page.locator('' @ quoted ''#old'' @ '')'')) demo_world) > 0 \<and>
   snd (corrections (demo_env (demo_suggestion ''#old'' ''#new'' ''high'')
          (''page.locator('' @ quoted ''#old'' @ '')'')) ''repo'' demo_world) \<noteq> [] \<and>
   totalTests (initialResults (demo_env (demo_suggestion ''#old'' ''#new'' ''high'')
          (''page.locator('' @ quoted ''#old'' @ '')'')) demo_world) = 2 \<and>
   totalTests (retryResults (demo_env (demo_suggestion ''#old'' ''#new'' ''high'')
          (''page.locator('' @ quoted ''#old'' @ '')'')) ''repo'' demo_world) = 3 \<and>
   totalTests (aggregated (demo_env (demo_suggestion ''#old'' ''#new'' ''high'')
          (''page.locator('' @ quoted ''#old'' @ '')'')) ''repo'' demo_world) = 2 \<and>
   passed (aggregated (demo_env (demo_suggestion ''#old'' ''#new'' ''high'')
          (''page.locator('' @ quoted ''#old'' @ '')'')) ''repo'' demo_world) = 3 \<and>
   failed (aggregated (demo_env (demo_suggestion ''#old'' ''#new'' ''high'')
          (''page.locator('' @ quoted ''#old'' @ '')'')) ''repo'' demo_world) = 0 \<and>
   totalTests (aggregated (demo_env (demo_suggestion ''#old'' ''#new'' ''high'')
          (''page.locator('' @ quoted ''#old'' @ '')'')) ''repo'' demo_world)
     \<noteq> passed (aggregated (demo_env (demo_suggestion ''#old'' ''#new'' ''high'')
          (''page.locator('' @ quoted ''#old'' @ '')'')) ''repo'' demo_world)
       + failed (aggregated (demo_env (demo_suggestion ''#old'' ''#new'' ''high'')
          (''page.locator('' @ quoted ''#old'' @ '')'')) ''repo'' demo_world)"
proof -
  let ?E = "demo_env (demo_suggestion ''#old'' ''#new'' ''high'') (''page.locator('' @ quoted ''#old'' @ '')'')"
  have h1: "snd (clone ?E (log demo_world @ [AgentStarted 3]))" by code_simp
  have h2: "failed (initialResults ?E demo_world) > 0" by code_simp
  have h3: "snd (corrections ?E ''repo'' demo_world) \<noteq> []" by code_simp
  have i: "totalTests (initialResults ?E demo_world) = 2" by code_simp
  have r: "totalTests (retryResults ?E ''repo'' demo_world) = 3"
    "passed (retryResults ?E ''repo'' demo_world) = 3"
    "failed (retryResults ?E ''repo'' demo_world) = 0" by code_simp+
  from triggerAgent3_retried_frame [OF h1 h2 h3]
  have "aggregated ?E ''repo'' demo_world
           = \<lparr>totalTests = totalTests (initialResults ?E demo_world),
              passed = passed (retryResults ?E ''repo'' demo_world),
              failed = failed (retryResults ?E ''repo'' demo_world),
              correctedSelectors = snd (corrections ?E ''repo'' demo_world),
              startTime = clock ?E (log demo_world @ [AgentStarted 3]), endTime = None,
              correctionPrUrl = JUndefined\<rparr>"
    by blast
  then have "totalTests (aggregated ?E ''repo'' demo_world) = 2"
    "passed (aggregated ?E ''repo'' demo_world) = 3"
    "failed (aggregated ?E ''repo'' demo_world) = 0"
    using i r by simp_all
  with h1 h2 h3 i r show ?thesis by simp
qed

subsection \<open>The Workflow Orchestrator\<close>

lemma triggerAgent3_starts:
  "\<exists>evs. log (fst (triggerAgent3 env repoDir w)) = log w @ AgentStarted 3 # evs"
proof (cases "snd (clone env (log w @ [AgentStarted 3]))")
  case True
  from triggerAgent3_log [OF True, of repoDir] show ?thesis by auto
next
  case False
  then show ?thesis by (simp add: triggerAgent3_def Let_def split_beta)
qed

text \<open>
  C2, on the code. When the steps of Agent 1 succeed and the call of \<open>triggerAgent2\<close>
  that \<open>triggerAgent1\<close> makes fails, \<open>triggerAgent1\<close> throws the failure again, the
  outer \<open>catch\<close> of \<open>triggerFullWorkflow\<close> logs it as fatal, and the run ends there:
  Agent 3 is not started and no completion is logged.
\<close>

theorem triggerFullWorkflow_agent2_failure_aborts:
  assumes "agent1_ok env (log w @ [AgentStarted 1])"
    and "\<not> agent2_ok env (log w @ [AgentStarted 1, AgentStarted 2])"
  shows "log (triggerFullWorkflow env repoDir w) = log w @ [AgentStarted 1, AgentStarted 2, FatalLogged]"
  using assms by (simp add: triggerFullWorkflow_def triggerAgent1_def triggerAgent2_def Let_def)

theorem triggerFullWorkflow_agent2_failure_aborts_witness:
  "agent1_ok (demo_env JNull []) (log demo_world @ [AgentStarted 1]) \<and>
   \<not> agent2_ok (demo_env JNull []) (log demo_world @ [AgentStarted 1, AgentStarted 2]) \<and>
   log (triggerFullWorkflow (demo_env JNull []) ''repo'' demo_world)
     = [AgentStarted 1, AgentStarted 2, FatalLogged] \<and>
   AgentStarted 3 \<notin> set (log (triggerFullWorkflow (demo_env JNull []) ''repo'' demo_world))"
proof -
  have h1: "agent1_ok (demo_env JNull []) (log demo_world @ [AgentStarted 1])"
    by (simp add: demo_env_def)
  have h2: "\<not> agent2_ok (demo_env JNull []) (log demo_world @ [AgentStarted 1, AgentStarted 2])"
    by (simp add: demo_env_def)
  have "log (triggerFullWorkflow (demo_env JNull []) ''repo'' demo_world)
     = log demo_world @ [AgentStarted 1, AgentStarted 2, FatalLogged]"
    using h1 h2 by (rule triggerFullWorkflow_agent2_failure_aborts)
  then have "log (triggerFullWorkflow (demo_env JNull []) ''repo'' demo_world)
     = [AgentStarted 1, AgentStarted 2, FatalLogged]"
    by (simp add: demo_world_def)
  with h1 h2 show ?thesis by simp
qed

text \<open>
  The orchestrator's own call of \<open>triggerAgent2\<close> is the one its \<open>try\<close> guards: when
  the call inside \<open>triggerAgent1\<close> succeeds, the run goes on to Agent 3 and to the
  completion line, whether the second call fails or not.
\<close>

lemma triggerFullWorkflow_guarded_agent2:
  assumes "agent1_ok env (log w @ [AgentStarted 1])"
    and "agent2_ok env (log w @ [AgentStarted 1, AgentStarted 2])"
  shows "\<exists>evs. log (triggerFullWorkflow env repoDir w)
           = log w @ [AgentStarted 1, AgentStarted 2, AgentStarted 2]
               @ (if agent2_ok env (log w @ [AgentStarted 1, AgentStarted 2, AgentStarted 2])
                  then [] else [StageErrorLogged 2])
               @ AgentStarted 3 # evs @ [WorkflowCompleted]"
proof -
  let ?l2 = "log w @ [AgentStarted 1, AgentStarted 2, AgentStarted 2]"
  define w2 where "w2 = (case triggerAgent2 env (emit (AgentStarted 2) (emit (AgentStarted 1) w)) of
                       (w', Inl e) \<Rightarrow> emit (StageErrorLogged 2) w'
                     | (w', Inr u') \<Rightarrow> w')"
  have l2: "log w2 = ?l2 @ (if agent2_ok env ?l2 then [] else [StageErrorLogged 2])"
    by (simp add: w2_def triggerAgent2_def Let_def)
  define w3 where "w3 = (case triggerAgent3 env repoDir w2 of
                       (w', Inl e) \<Rightarrow> emit (StageErrorLogged 3) w'
                     | (w', Inr t) \<Rightarrow> w')"
  obtain evs where e3: "log (fst (triggerAgent3 env repoDir w2)) = log w2 @ AgentStarted 3 # evs"
    using triggerAgent3_starts by blast
  have "\<exists>evs'. log w3 = log w2 @ AgentStarted 3 # evs'"
  proof (cases "triggerAgent3 env repoDir w2")
    case (Pair a b)
    with e3 show ?thesis by (cases b) (simp_all add: w3_def)
  qed
  then obtain evs' where l3: "log w3 = log w2 @ AgentStarted 3 # evs'" by blast
  have wf: "triggerFullWorkflow env repoDir w = emit WorkflowCompleted w3"
    using assms
    by (simp add: triggerFullWorkflow_def triggerAgent1_def triggerAgent2_def Let_def w3_def w2_def)
  show ?thesis
    by (rule exI [of _ evs']) (simp add: wf l3 l2)
qed

subsection \<open>What makes a pass fail\<close>

text \<open>
  Each cause of failure that the loop body guards against gives an outcome other than
  a correction: a missing locator, a missing page address, a page that could not be
  fetched, an advisory that threw or did not parse, and a page object that could not
  be written.
\<close>

lemma attempt_no_locator:
  assumes "to_string (ft_name t) \<noteq> None" and "ft_error t = JStr err" and "failedSelectorOf err = None"
  shows "attempt env repoDir t w = (w, NoLocator)"
  using assms by (auto simp: attempt_def obtainSuggestion_def)

lemma attempt_no_url:
  assumes "to_string (ft_name t) \<noteq> None" and "ft_error t = JStr err" and "failedSelectorOf err = Some sel"
    and "ft_file t = JStr f" and "files w (path_join env repoDir f) = Some content"
    and "pageUrlOf content = None"
  shows "attempt env repoDir t w = (w, NoUrl)"
  using assms by (auto simp: attempt_def obtainSuggestion_def)

lemma attempt_fetch_failed:
  assumes "to_string (ft_name t) \<noteq> None" and "ft_error t = JStr err" and "failedSelectorOf err = Some sel"
    and "ft_file t = JStr f" and "files w (path_join env repoDir f) = Some content"
    and "pageUrlOf content = Some url" and "http_get env (log w) url = JNull"
  shows "attempt env repoDir t w = (emit (FetchPage url) w, NoHtml)"
  using assms by (auto simp: attempt_def obtainSuggestion_def Let_def)

lemma askAdvisor_failed:
  assumes "ask_ai env (log w) sel (take 5000 html) = None \<or>
           (\<exists>txt. ask_ai env (log w) sel (take 5000 html) = Some txt \<and> json_parse env (stripFences txt) = None)"
  shows "askAdvisor env f sel html w = (emit (AskAdvisor sel (take 5000 html)) w, Inl Caught)"
  using assms by (auto simp: askAdvisor_def Let_def)

lemma updatePageObjectSelector_write_failed:
  assumes "pageObjectPath env repoDir f w = Some p" and "\<not> can_write env (log w) p"
  shows "updatePageObjectSelector env repoDir f sug w = (w, False)"
  using assms by (auto simp: updatePageObjectSelector_def split: option.splits patch.splits)

end
